theory Spec2Isabelle
  imports Main
begin

section \<open>JavaScript values\<close>

text \<open>
  The wrapper of \<^verbatim>\<open>http.ts\<close> handles values of type \<^verbatim>\<open>unknown\<close> (request bodies,
  decoded response bodies) and plain objects (the options, the query parameters, the
  header mapping). A value is one of the shapes below. A plain object is the list of its
  own enumerable string-keyed properties in enumeration order; as in JavaScript, the keys
  of an object are distinct, which the theorems that need it assume as
  \<open>distinct (map fst ps)\<close>.
  Functions, symbols and objects with accessors or a \<^verbatim>\<open>toJSON\<close> method are not
  values of the model.

  Numbers are IEEE doubles on the platform. Their carrier is the type parameter \<open>'n\<close>,
  and what the platform computes from a number (its string form, its truthiness) is a
  parameter of the model.

  \<open>JFormData\<close>, \<open>JBlob\<close> and \<open>JHeaders\<close> are the instances of the platform classes
  \<^verbatim>\<open>FormData\<close>, \<^verbatim>\<open>Blob\<close> (with its subclasses, such as \<^verbatim>\<open>File\<close>) and
  \<^verbatim>\<open>Headers\<close>; \<open>JHost c\<close> is an instance of any other platform class \<open>c\<close>
  (\<^verbatim>\<open>AbortSignal\<close>, \<^verbatim>\<open>ArrayBuffer\<close>, \<^verbatim>\<open>URLSearchParams\<close>, ...). None of them has
  own enumerable properties.
\<close>

datatype 'n js_value =
    JUndefined
  | JNull
  | JBool bool
  | JNumber 'n
  | JString string
  | JArray "'n js_value list"
  | JObject "(string \<times> 'n js_value) list"
  | JFormData "(string \<times> 'n js_value) list"
  | JBlob string
  | JHeaders "(string \<times> string) list"
  | JHost string

type_synonym 'n js_object = "(string \<times> 'n js_value) list"

text \<open>Reading a property: \<^verbatim>\<open>o.k\<close> is \<^verbatim>\<open>undefined\<close> when \<open>o\<close> has no property \<open>k\<close>.\<close>

definition get_prop :: "'n js_object \<Rightarrow> string \<Rightarrow> 'n js_value" where
  "get_prop obj k = (case map_of obj k of None \<Rightarrow> JUndefined | Some v \<Rightarrow> v)"

text \<open>
  Defining a property (\<^verbatim>\<open>CreateDataProperty\<close>): an existing key keeps its place and
  takes the new value, a new key goes last. JavaScript enumerates the keys that are
  array indices (\<^verbatim>\<open>'0'\<close>, \<^verbatim>\<open>'1'\<close>, ...) before the others, in ascending order; the
  list of the model keeps them where they were defined. The properties and their values
  are the same, only the place in the enumeration differs, so what is stated of an
  object that has index keys is stated of its properties (\<open>map_of\<close>), not of their
  order.
\<close>

fun define_prop :: "string \<Rightarrow> 'n js_value \<Rightarrow> 'n js_object \<Rightarrow> 'n js_object" where
  "define_prop k v [] = [(k, v)]"
| "define_prop k v ((k', v') # ps) =
     (if k' = k then (k, v) # ps else (k', v') # define_prop k v ps)"

text \<open>The decimal form of an array index, the key under which an element is a property.\<close>

function decimal :: "nat \<Rightarrow> string" where
  "decimal n =
     (if n < 10 then [''0123456789'' ! n]
      else decimal (n div 10) @ [''0123456789'' ! (n mod 10)])"
  by pat_completeness auto
termination
  by (relation "measure id") auto

declare decimal.simps [simp del]

text \<open>
  The own enumerable string-keyed properties of a value, as \<^verbatim>\<open>Object.entries\<close> lists
  them and as an object spread \<^verbatim>\<open>{...v}\<close> copies them: the properties of a plain
  object, the indexed elements of an array, the indexed characters of a string, and
  nothing for \<^verbatim>\<open>undefined\<close>, \<^verbatim>\<open>null\<close>, booleans, numbers and platform objects.
\<close>

fun own_entries :: "'n js_value \<Rightarrow> 'n js_object" where
  "own_entries (JObject ps) = ps"
| "own_entries (JArray xs) = zip (map decimal [0..<length xs]) xs"
| "own_entries (JString s) = zip (map decimal [0..<length s]) (map (\<lambda>c. JString [c]) s)"
| "own_entries _ = []"

text \<open>The spread \<^verbatim>\<open>{...obj, ...v}\<close>: the properties of \<open>v\<close> defined on \<open>obj\<close> in order.\<close>

definition spread :: "'n js_object \<Rightarrow> 'n js_value \<Rightarrow> 'n js_object" where
  "spread obj v = fold (\<lambda>(k, x). define_prop k x) (own_entries v) obj"

text \<open>
  The rest of a destructuring \<^verbatim>\<open>const { k1, k2, ...rest } = obj\<close>: the properties of
  \<open>obj\<close> under the other keys.
\<close>

definition rest_props :: "string list \<Rightarrow> 'n js_object \<Rightarrow> 'n js_object" where
  "rest_props ks obj = filter (\<lambda>(k, v). k \<notin> set ks) obj"

section \<open>The platform\<close>

text \<open>
  A parsed \<^verbatim>\<open>URL\<close> object: the serialisation of everything before the query, the
  list of query pairs that \<^verbatim>\<open>url.searchParams\<close> holds, and the fragment.
\<close>

text \<open>
  Percent-encoding and decoding belong to the serialiser and the parser, which are
  parameters below: the pairs hold the decoded names and values.
\<close>

record URL =
  before_query :: string
  searchParams :: "(string \<times> string) list"
  fragment :: "string option"

text \<open>
  A transport \<^verbatim>\<open>Response\<close>: status, status text, header list and the body text.
\<close>

record Response =
  resp_status :: nat
  resp_statusText :: string
  resp_headers :: "(string \<times> string) list"
  resp_body :: string

text \<open>
  What the wrapper calls and does not implement is a parameter: the URL parser and
  serialiser (\<^verbatim>\<open>new URL(s)\<close> throws on a string that is not a valid absolute URL:
  \<open>None\<close>; \<^verbatim>\<open>url.toString()\<close>), the conversions of numbers, \<^verbatim>\<open>toString\<close> of
  objects, \<^verbatim>\<open>JSON.stringify\<close> (\<open>None\<close> when it throws), the JSON decoder behind
  \<^verbatim>\<open>response.json()\<close> (\<open>None\<close> when the body is not valid JSON text) and
  \<^verbatim>\<open>fetch\<close> itself (\<open>None\<close> when the promise rejects: network failure, abort).
\<close>

record 'n platform =
  URL_parse :: "string \<Rightarrow> URL option"
  URL_toString :: "URL \<Rightarrow> string"
  Number_toString :: "'n \<Rightarrow> string"
  Number_toBoolean :: "'n \<Rightarrow> bool"
  Object_toString :: "'n js_value \<Rightarrow> string"
  JSON_stringify :: "'n js_value \<Rightarrow> string option"
  JSON_parse :: "string \<Rightarrow> 'n js_value option"
  fetch :: "string \<Rightarrow> 'n js_object \<Rightarrow> Response option"

text \<open>\<^verbatim>\<open>String(v)\<close>.\<close>

definition ToString :: "'n platform \<Rightarrow> 'n js_value \<Rightarrow> string" where
  "ToString P v =
     (case v of
        JUndefined \<Rightarrow> ''undefined''
      | JNull \<Rightarrow> ''null''
      | JBool b \<Rightarrow> (if b then ''true'' else ''false'')
      | JNumber n \<Rightarrow> Number_toString P n
      | JString s \<Rightarrow> s
      | _ \<Rightarrow> Object_toString P v)"

text \<open>The truthiness of a value, as \<^verbatim>\<open>if (v)\<close> tests it.\<close>

definition ToBoolean :: "'n platform \<Rightarrow> 'n js_value \<Rightarrow> bool" where
  "ToBoolean P v =
     (case v of
        JUndefined \<Rightarrow> False
      | JNull \<Rightarrow> False
      | JBool b \<Rightarrow> b
      | JNumber n \<Rightarrow> Number_toBoolean P n
      | JString s \<Rightarrow> s \<noteq> []
      | _ \<Rightarrow> True)"

text \<open>
  \<^verbatim>\<open>URLSearchParams.set(name, value)\<close> of the URL standard: when the list has pairs
  named \<open>name\<close>, the first takes the value and the others are removed; otherwise a new
  pair is appended.
\<close>

fun set_existing :: "string \<Rightarrow> string \<Rightarrow> (string \<times> string) list \<Rightarrow> (string \<times> string) list" where
  "set_existing name v [] = []"
| "set_existing name v ((k, w) # ps) =
     (if k = name then (name, v) # filter (\<lambda>p. fst p \<noteq> name) ps
      else (k, w) # set_existing name v ps)"

definition URLSearchParams_set ::
  "string \<Rightarrow> string \<Rightarrow> (string \<times> string) list \<Rightarrow> (string \<times> string) list" where
  "URLSearchParams_set name v ps =
     (if name \<in> set (map fst ps) then set_existing name v ps else ps @ [(name, v)])"

section \<open>The wrapper: \<^verbatim>\<open>http.ts\<close>\<close>

datatype HttpMethod = GET | POST | PUT | PATCH | DELETE

fun method_string :: "HttpMethod \<Rightarrow> string" where
  "method_string GET = ''GET''"
| "method_string POST = ''POST''"
| "method_string PUT = ''PUT''"
| "method_string PATCH = ''PATCH''"
| "method_string DELETE = ''DELETE''"

text \<open>
  What a call can fail with. Nothing in the wrapper catches: a failure is the outcome
  of the call.
\<close>

datatype error =
    MalformedURL
  | StringifyFailure
  | TransportFailure
  | JsonDecodeFailure

subsection \<open>\<^verbatim>\<open>buildUrl\<close>\<close>

text \<open>
  The body of the \<^verbatim>\<open>forEach\<close> callback: an entry whose value is not \<^verbatim>\<open>undefined\<close>
  is set on the search parameters under its string form.
\<close>

definition set_param ::
  "'n platform \<Rightarrow> string \<times> 'n js_value \<Rightarrow> (string \<times> string) list \<Rightarrow> (string \<times> string) list" where
  "set_param P entry ps =
     (case entry of (key, v) \<Rightarrow>
        if v \<noteq> JUndefined then URLSearchParams_set key (ToString P v) ps else ps)"

text \<open>The URL object after \<^verbatim>\<open>if (params) { Object.entries(params).forEach(...) }\<close>.\<close>

definition apply_params :: "'n platform \<Rightarrow> 'n js_value \<Rightarrow> URL \<Rightarrow> URL" where
  "apply_params P params fullUrl =
     (if ToBoolean P params
      then fullUrl\<lparr>searchParams := fold (set_param P) (own_entries params) (searchParams fullUrl)\<rparr>
      else fullUrl)"

definition buildUrl :: "'n platform \<Rightarrow> string \<Rightarrow> 'n js_value \<Rightarrow> error + string" where
  "buildUrl P path params =
     (case URL_parse P path of
        None \<Rightarrow> Inl MalformedURL
      | Some fullUrl \<Rightarrow> Inr (URL_toString P (apply_params P params fullUrl)))"

subsection \<open>The response side of the platform\<close>

text \<open>
  \<^verbatim>\<open>headers.get(name)\<close> of the Fetch standard: header names match without regard to
  ASCII case; the values of all matching headers are joined with a comma and a space;
  \<^verbatim>\<open>null\<close> (\<open>None\<close>) when no header matches.
\<close>

definition ascii_lower :: "char \<Rightarrow> char" where
  "ascii_lower c =
     (case map_of (zip ''ABCDEFGHIJKLMNOPQRSTUVWXYZ'' ''abcdefghijklmnopqrstuvwxyz'') c of
        None \<Rightarrow> c
      | Some l \<Rightarrow> l)"

definition Headers_get :: "(string \<times> string) list \<Rightarrow> string \<Rightarrow> string option" where
  "Headers_get hs name =
     (case map snd (filter (\<lambda>(n, v). map ascii_lower n = map ascii_lower name) hs) of
        [] \<Rightarrow> None
      | v # vs \<Rightarrow> Some (foldl (\<lambda>acc w. acc @ '', '' @ w) v vs))"

text \<open>\<^verbatim>\<open>s.includes(sub)\<close>: \<open>sub\<close> occurs in \<open>s\<close> as a contiguous substring.\<close>

fun str_includes :: "string \<Rightarrow> string \<Rightarrow> bool" where
  "str_includes [] sub = (sub = [])"
| "str_includes (c # cs) sub = (take (length sub) (c # cs) = sub \<or> str_includes cs sub)"

text \<open>\<^verbatim>\<open>response.ok\<close> of the Fetch standard: the status is in the range 200 to 299.\<close>

definition Response_ok :: "Response \<Rightarrow> bool" where
  "Response_ok r = (200 \<le> resp_status r \<and> resp_status r \<le> 299)"

subsection \<open>\<^verbatim>\<open>request\<close>\<close>

text \<open>
  \<^verbatim>\<open>HttpResponse<T> = HttpResponseSuccess<T> | HttpResponseError\<close>, discriminated by
  \<open>ok\<close>. Both variants have the same fields.
\<close>

datatype 'n HttpResponse =
    ok: HttpResponseSuccess
      (data: "'n js_value") (status: nat) (statusText: string)
      (headers: "(string \<times> string) list") (response: Response)
  | HttpResponseError
      (data: "'n js_value") (status: nat) (statusText: string)
      (headers: "(string \<times> string) list") (response: Response)

fun instanceof_FormData :: "'n js_value \<Rightarrow> bool" where
  "instanceof_FormData (JFormData _) = True"
| "instanceof_FormData _ = False"

fun instanceof_Blob :: "'n js_value \<Rightarrow> bool" where
  "instanceof_Blob (JBlob _) = True"
| "instanceof_Blob _ = False"

definition isJsonBody :: "'n js_value \<Rightarrow> bool" where
  "isJsonBody body =
     (body \<noteq> JUndefined \<and> \<not> instanceof_FormData body \<and> \<not> instanceof_Blob body)"

text \<open>
  The object literal
  \<^verbatim>\<open>{ ...(isJsonBody && { 'Content-Type': 'application/json' }), ...headers }\<close>.
\<close>

definition request_headers :: "'n js_value \<Rightarrow> 'n js_value \<Rightarrow> 'n js_object" where
  "request_headers body hdrs =
     spread
       (spread []
          (if isJsonBody body then JObject [(''Content-Type'', JString ''application/json'')]
           else JBool False))
       hdrs"

text \<open>\<^verbatim>\<open>isJsonBody ? JSON.stringify(body) : (body as BodyInit)\<close>; \<open>None\<close> when it throws.\<close>

definition request_body :: "'n platform \<Rightarrow> 'n js_value \<Rightarrow> 'n js_value option" where
  "request_body P body =
     (if isJsonBody body then map_option JString (JSON_stringify P body) else Some body)"

text \<open>
  The second argument of \<^verbatim>\<open>fetch\<close>:
  \<^verbatim>\<open>{ method, headers: {...}, body: ..., ...fetchOptions }\<close>, where
  \<^verbatim>\<open>const { params, body, headers, ...fetchOptions } = options\<close>.
\<close>

definition request_init :: "'n platform \<Rightarrow> HttpMethod \<Rightarrow> 'n js_object \<Rightarrow> error + 'n js_object" where
  "request_init P method options =
     (let body = get_prop options ''body'';
          hdrs = get_prop options ''headers'';
          fetchOptions = rest_props [''params'', ''body'', ''headers''] options
      in case request_body P body of
           None \<Rightarrow> Inl StringifyFailure
         | Some b \<Rightarrow>
             Inr (spread
                    [(''method'', JString (method_string method)),
                     (''headers'', JObject (request_headers body hdrs)),
                     (''body'', b)]
                    (JObject fetchOptions)))"

text \<open>
  Lines 77 to 101 of \<^verbatim>\<open>request\<close>: the body is decoded when the content type says
  JSON (\<open>decode_body\<close>, \<open>None\<close> when \<^verbatim>\<open>response.json()\<close> rejects), and the result
  is the success or the error variant by \<^verbatim>\<open>response.ok\<close> (\<open>result_of\<close>).
\<close>

definition decode_body :: "'n platform \<Rightarrow> Response \<Rightarrow> 'n js_value option" where
  "decode_body P r =
     (case Headers_get (resp_headers r) ''content-type'' of
        None \<Rightarrow> Some JNull
      | Some contentType \<Rightarrow>
          if str_includes contentType ''application/json'' then JSON_parse P (resp_body r)
          else Some JNull)"

definition result_of :: "Response \<Rightarrow> 'n js_value \<Rightarrow> 'n HttpResponse" where
  "result_of r d =
     (if Response_ok r
      then HttpResponseSuccess d (resp_status r) (resp_statusText r) (resp_headers r) r
      else HttpResponseError d (resp_status r) (resp_statusText r) (resp_headers r) r)"

definition shape :: "'n platform \<Rightarrow> Response \<Rightarrow> error + 'n HttpResponse" where
  "shape P r =
     (case decode_body P r of
        None \<Rightarrow> Inl JsonDecodeFailure
      | Some d \<Rightarrow> Inr (result_of r d))"

text \<open>
  \<^verbatim>\<open>request(method, path, options = {})\<close>: an absent \<open>options\<close> is the empty
  object. The result is the list of the network calls
  issued, each with the two arguments of \<^verbatim>\<open>fetch\<close>, and the outcome of the call: the
  failure it throws, or the \<^verbatim>\<open>HttpResponse\<close> it returns.
\<close>

definition default_options :: "'n js_object option \<Rightarrow> 'n js_object" where
  "default_options opt = (case opt of None \<Rightarrow> [] | Some obj \<Rightarrow> obj)"

definition request ::
  "'n platform \<Rightarrow> HttpMethod \<Rightarrow> string \<Rightarrow> 'n js_object option \<Rightarrow>
     (string \<times> 'n js_object) list \<times> (error + 'n HttpResponse)" where
  "request P method path opt =
     (let options = default_options opt in
      case buildUrl P path (get_prop options ''params'') of
        Inl e \<Rightarrow> ([], Inl e)
      | Inr url \<Rightarrow>
          (case request_init P method options of
             Inl e \<Rightarrow> ([], Inl e)
           | Inr init \<Rightarrow>
               (case fetch P url init of
                  None \<Rightarrow> ([(url, init)], Inl TransportFailure)
                | Some r \<Rightarrow> ([(url, init)], shape P r))))"

subsection \<open>The verbs\<close>

text \<open>\<^verbatim>\<open>{ ...options, body }\<close>, where \<open>options\<close> may be \<^verbatim>\<open>undefined\<close>.\<close>

definition with_body :: "'n js_object option \<Rightarrow> 'n js_value \<Rightarrow> 'n js_object" where
  "with_body opt body =
     define_prop ''body'' body
       (spread [] (case opt of None \<Rightarrow> JUndefined | Some obj \<Rightarrow> JObject obj))"

definition http_get ::
  "'n platform \<Rightarrow> string \<Rightarrow> 'n js_object option \<Rightarrow>
     (string \<times> 'n js_object) list \<times> (error + 'n HttpResponse)" where
  "http_get P path opt = request P GET path opt"

definition http_post ::
  "'n platform \<Rightarrow> string \<Rightarrow> 'n js_value \<Rightarrow> 'n js_object option \<Rightarrow>
     (string \<times> 'n js_object) list \<times> (error + 'n HttpResponse)" where
  "http_post P path body opt = request P POST path (Some (with_body opt body))"

definition http_put ::
  "'n platform \<Rightarrow> string \<Rightarrow> 'n js_value \<Rightarrow> 'n js_object option \<Rightarrow>
     (string \<times> 'n js_object) list \<times> (error + 'n HttpResponse)" where
  "http_put P path body opt = request P PUT path (Some (with_body opt body))"

definition http_patch ::
  "'n platform \<Rightarrow> string \<Rightarrow> 'n js_value \<Rightarrow> 'n js_object option \<Rightarrow>
     (string \<times> 'n js_object) list \<times> (error + 'n HttpResponse)" where
  "http_patch P path body opt = request P PATCH path (Some (with_body opt body))"

definition http_delete ::
  "'n platform \<Rightarrow> string \<Rightarrow> 'n js_object option \<Rightarrow>
     (string \<times> 'n js_object) list \<times> (error + 'n HttpResponse)" where
  "http_delete P path opt = request P DELETE path opt"

section \<open>Notions used to state the properties\<close>

text \<open>
  The response says its body is JSON: it has a \<^verbatim>\<open>content-type\<close> header whose value
  contains \<^verbatim>\<open>application/json\<close>.
\<close>

definition claims_json :: "Response \<Rightarrow> bool" where
  "claims_json r =
     (case Headers_get (resp_headers r) ''content-type'' of
        None \<Rightarrow> False
      | Some contentType \<Rightarrow> str_includes contentType ''application/json'')"

text \<open>
  The calls of \<^verbatim>\<open>searchParams.set\<close> that the loop of \<^verbatim>\<open>buildUrl\<close> makes for a list
  of entries, and their effect on a list of query pairs.
\<close>

definition set_calls :: "'n platform \<Rightarrow> 'n js_object \<Rightarrow> (string \<times> string) list" where
  "set_calls P es =
     map (\<lambda>(k, v). (k, ToString P v)) (filter (\<lambda>(k, v). v \<noteq> JUndefined) es)"

definition set_all ::
  "(string \<times> string) list \<Rightarrow> (string \<times> string) list \<Rightarrow> (string \<times> string) list" where
  "set_all calls ps = fold (\<lambda>(k, s). URLSearchParams_set k s) calls ps"

definition put_value :: "string \<Rightarrow> string \<Rightarrow> string \<times> string \<Rightarrow> string \<times> string" where
  "put_value name v p = (if fst p = name then (name, v) else p)"

definition final_value :: "(string \<times> string) list \<Rightarrow> string \<times> string \<Rightarrow> string \<times> string" where
  "final_value calls p =
     (case map_of (rev calls) (fst p) of None \<Rightarrow> p | Some s \<Rightarrow> (fst p, s))"

section \<open>A platform for the examples\<close>

text \<open>
  A small platform on which the definitions run: numbers are natural numbers written in
  decimal, the URL parser knows the addresses of the examples, the serialiser writes the
  query pairs after a question mark, the JSON encoder and decoder know the texts of the
  examples, and the transport answers by the path of the address.
\<close>

definition example_href :: "URL \<Rightarrow> string" where
  "example_href u =
     before_query u @
     (case searchParams u of
        [] \<Rightarrow> []
      | p # ps \<Rightarrow>
          ''?'' @ fst p @ ''='' @ snd p @ concat (map (\<lambda>q. ''&'' @ fst q @ ''='' @ snd q) ps)) @
     (case fragment u of None \<Rightarrow> [] | Some f \<Rightarrow> ''#'' @ f)"

definition example_parse :: "string \<Rightarrow> URL option" where
  "example_parse s =
     (if s = ''https://api.example.com/users''
      then Some \<lparr>before_query = ''https://api.example.com/users'', searchParams = [],
                 fragment = None\<rparr>
      else if s = ''https://api.example.com/users?role=admin&active=true''
      then Some \<lparr>before_query = ''https://api.example.com/users'',
                 searchParams = [(''role'', ''admin''), (''active'', ''true'')],
                 fragment = None\<rparr>
      else if s = ''https://api.example.com/broken''
      then Some \<lparr>before_query = ''https://api.example.com/broken'', searchParams = [],
                 fragment = None\<rparr>
      else if s = ''https://api.example.com/users/1''
      then Some \<lparr>before_query = ''https://api.example.com/users/1'', searchParams = [],
                 fragment = None\<rparr>
      else if s = ''https://api.example.com/missing''
      then Some \<lparr>before_query = ''https://api.example.com/missing'', searchParams = [],
                 fragment = None\<rparr>
      else None)"

definition created_response :: Response where
  "created_response =
     \<lparr>resp_status = 201, resp_statusText = ''Created'',
      resp_headers = [(''Content-Type'', ''application/json; charset=utf-8'')],
      resp_body = ''{\"id\":1}''\<rparr>"

definition broken_response :: Response where
  "broken_response =
     \<lparr>resp_status = 500, resp_statusText = ''Internal Server Error'',
      resp_headers = [(''Content-Type'', ''application/json'')],
      resp_body = ''<html>Bad Gateway</html>''\<rparr>"

definition broken_ok_response :: Response where
  "broken_ok_response = broken_response\<lparr>resp_status := 200, resp_statusText := ''OK''\<rparr>"

definition no_content_response :: Response where
  "no_content_response =
     \<lparr>resp_status = 204, resp_statusText = ''No Content'', resp_headers = [],
      resp_body = []\<rparr>"

definition not_found_response :: Response where
  "not_found_response =
     \<lparr>resp_status = 404, resp_statusText = ''Not Found'',
      resp_headers = [(''content-type'', ''text/html'')],
      resp_body = ''<html>Not Found</html>''\<rparr>"

definition validation_response :: Response where
  "validation_response =
     \<lparr>resp_status = 422, resp_statusText = ''Unprocessable Entity'',
      resp_headers = [(''Content-Type'', ''application/json'')],
      resp_body = ''[1,2]''\<rparr>"

definition example_fetch :: "string \<Rightarrow> nat js_object \<Rightarrow> Response option" where
  "example_fetch url init =
     (if url = ''https://api.example.com/broken'' then Some broken_response
      else if url = ''https://api.example.com/users/1'' then Some no_content_response
      else if url = ''https://api.example.com/missing'' then Some not_found_response
      else Some created_response)"

definition example_platform :: "nat platform" where
  "example_platform =
     \<lparr>URL_parse = example_parse,
      URL_toString = example_href,
      Number_toString = decimal,
      Number_toBoolean = (\<lambda>n. n \<noteq> 0),
      Object_toString = (\<lambda>v. ''[object Object]''),
      JSON_stringify =
        (\<lambda>v. if v = JObject [(''name'', JString ''Bob'')] then Some ''{\"name\":\"Bob\"}''
             else if v = JArray [JNumber 1, JNumber 2] then Some ''[1,2]''
             else None),
      JSON_parse =
        (\<lambda>s. if s = ''{\"id\":1}'' then Some (JObject [(''id'', JNumber 1)])
             else if s = ''[1,2]'' then Some (JArray [JNumber 1, JNumber 2])
             else None),
      fetch = example_fetch\<rparr>"


section \<open>Objects\<close>

lemma map_of_define_prop: "map_of (define_prop k v ps) = (map_of ps)(k \<mapsto> v)"
  by (induction ps) (auto simp: fun_eq_iff)

lemma get_prop_define_prop:
  "get_prop (define_prop k v ps) k' = (if k' = k then v else get_prop ps k')"
  by (simp add: get_prop_def map_of_define_prop)

lemma define_prop_twice: "define_prop k v (define_prop k w ps) = define_prop k v ps"
  by (induction ps) auto

lemma define_prop_fresh: "k \<notin> fst ` set ps \<Longrightarrow> define_prop k v ps = ps @ [(k, v)]"
  by (induction ps) auto

lemma fold_define_prop_distinct:
  "distinct (map fst (acc @ es)) \<Longrightarrow> fold (\<lambda>(k, x). define_prop k x) es acc = acc @ es"
proof (induction es arbitrary: acc)
  case Nil
  then show ?case by simp
next
  case (Cons e es)
  obtain k x where e: "e = (k, x)" by (cases e)
  from Cons.prems have fresh: "k \<notin> fst ` set acc" by (auto simp: e)
  from Cons.prems have "distinct (map fst ((acc @ [(k, x)]) @ es))" by (simp add: e)
  from Cons.IH[OF this] show ?case by (simp add: e define_prop_fresh[OF fresh])
qed

lemma map_of_fold_define_prop:
  "map_of (fold (\<lambda>(k, x). define_prop k x) es acc) = map_of acc ++ map_of (rev es)"
  by (induction es arbitrary: acc)
     (auto simp: map_of_define_prop fun_eq_iff map_add_def split: option.splits)

lemma map_of_rev_distinct:
  assumes "distinct (map fst es)"
  shows "map_of (rev es) = map_of es"
proof (rule ext)
  fix k
  show "map_of (rev es) k = map_of es k"
  proof (cases "map_of es k")
    case None
    then have "k \<notin> fst ` set es" by (simp add: map_of_eq_None_iff)
    then have "map_of (rev es) k = None" by (simp add: map_of_eq_None_iff)
    with None show ?thesis by simp
  next
    case (Some v)
    then have "(k, v) \<in> set (rev es)" by (auto dest: map_of_SomeD)
    moreover from assms have "distinct (map fst (rev es))" by (simp add: rev_map [symmetric])
    ultimately show ?thesis using Some by simp
  qed
qed

lemma spread_empty_object:
  "distinct (map fst ps) \<Longrightarrow> spread [] (JObject ps) = ps"
  using fold_define_prop_distinct [of "[]" ps] by (simp add: spread_def)

lemma map_of_spread: "map_of (spread obj v) = map_of obj ++ map_of (rev (own_entries v))"
  by (simp add: spread_def map_of_fold_define_prop)



section \<open>The body classifier\<close>

text \<open>
  Claim C3. \<^verbatim>\<open>isJsonBody\<close> is false exactly when the body is \<^verbatim>\<open>undefined\<close>, a
  \<^verbatim>\<open>FormData\<close> or a \<^verbatim>\<open>Blob\<close>; it is true for every other value: plain objects,
  arrays, strings, numbers, booleans, \<^verbatim>\<open>null\<close> and every other platform object.
\<close>

theorem isJsonBody_false_iff:
  "((isJsonBody body = False) =
      (body = JUndefined \<or> (\<exists>entries. body = JFormData entries) \<or>
       (\<exists>bytes. body = JBlob bytes))) \<and>
   isJsonBody (JObject ps) \<and> isJsonBody (JArray xs) \<and> isJsonBody (JString s) \<and>
   isJsonBody (JNumber n) \<and> isJsonBody (JBool b) \<and> isJsonBody JNull \<and>
   isJsonBody (JHeaders hs) \<and> isJsonBody (JHost c)"
  by (cases body) (simp_all add: isJsonBody_def)

section \<open>The request pipeline\<close>

lemma decode_body_eq:
  "decode_body P r = (if claims_json r then JSON_parse P (resp_body r) else Some JNull)"
  by (simp add: decode_body_def claims_json_def split: option.splits)

lemma str_includes_iff: "str_includes s sub \<longleftrightarrow> (\<exists>pre post. s = pre @ sub @ post)"
proof (induction s)
  case Nil
  then show ?case by simp
next
  case (Cons c cs)
  have here: "take (length sub) (c # cs) = sub \<longleftrightarrow> (\<exists>post. c # cs = sub @ post)"
    by (metis append_eq_conv_conj)
  have split: "(\<exists>pre post. c # cs = pre @ sub @ post) \<longleftrightarrow>
      (\<exists>post. c # cs = sub @ post) \<or> (\<exists>pre post. cs = pre @ sub @ post)"
  proof
    assume "\<exists>pre post. c # cs = pre @ sub @ post"
    then obtain pre post where eq: "c # cs = pre @ sub @ post" by blast
    show "(\<exists>post. c # cs = sub @ post) \<or> (\<exists>pre post. cs = pre @ sub @ post)"
    proof (cases pre)
      case Nil
      with eq show ?thesis by auto
    next
      case (Cons a pre')
      with eq have "cs = pre' @ sub @ post" by simp
      then show ?thesis by blast
    qed
  next
    assume "(\<exists>post. c # cs = sub @ post) \<or> (\<exists>pre post. cs = pre @ sub @ post)"
    then show "\<exists>pre post. c # cs = pre @ sub @ post"
    proof
      assume "\<exists>post. c # cs = sub @ post"
      then obtain post where "c # cs = [] @ sub @ post" by auto
      then show ?thesis by blast
    next
      assume "\<exists>pre post. cs = pre @ sub @ post"
      then obtain pre post where "c # cs = (c # pre) @ sub @ post" by auto
      then show ?thesis by blast
    qed
  qed
  show ?case by (simp only: str_includes.simps here split Cons.IH)
qed

lemma request_after_fetch:
  assumes "buildUrl P path (get_prop (default_options opt) ''params'') = Inr url"
      and "request_init P m (default_options opt) = Inr init"
  shows "request P m path opt =
           ([(url, init)],
            case fetch P url init of None \<Rightarrow> Inl TransportFailure | Some r \<Rightarrow> shape P r)"
  using assms by (simp add: request_def split: option.splits)

lemma request_malformed:
  "URL_parse P path = None \<Longrightarrow> request P m path opt = ([], Inl MalformedURL)"
  by (simp add: request_def buildUrl_def)

lemma request_init_eq:
  assumes "request_body P (get_prop options ''body'') = Some b"
  shows "request_init P m options =
           Inr (spread
                  [(''method'', JString (method_string m)),
                   (''headers'',
                    JObject (request_headers (get_prop options ''body'')
                               (get_prop options ''headers''))),
                   (''body'', b)]
                  (JObject (rest_props [''params'', ''body'', ''headers''] options)))"
  using assms by (simp add: request_init_def)



lemma buildUrl_valid:
  "URL_parse P path = Some fullUrl \<Longrightarrow>
   buildUrl P path params = Inr (URL_toString P (apply_params P params fullUrl))"
  by (simp add: buildUrl_def)

lemma request_body_encoded:
  assumes "isJsonBody body \<longrightarrow> JSON_stringify P body = Some text"
  shows "request_body P body = Some (if isJsonBody body then JString text else body)"
  using assms by (simp add: request_body_def)


text \<open>
  When the path is a valid absolute URL and \<^verbatim>\<open>JSON.stringify\<close> returns for a body that
  is to be encoded, the call reaches the transport, once, and its outcome is the
  transport's failure or the shaped response.
\<close>

lemma request_issues_one_call:
  assumes "URL_parse P path = Some fullUrl"
      and "isJsonBody (get_prop (default_options opt) ''body'') \<longrightarrow>
             JSON_stringify P (get_prop (default_options opt) ''body'') = Some text"
  shows "\<exists>url init.
           buildUrl P path (get_prop (default_options opt) ''params'') = Inr url \<and>
           request_init P m (default_options opt) = Inr init \<and>
           request P m path opt =
             ([(url, init)],
              case fetch P url init of None \<Rightarrow> Inl TransportFailure | Some r \<Rightarrow> shape P r)"
proof -
  let ?url = "URL_toString P
                (apply_params P (get_prop (default_options opt) ''params'') fullUrl)"
  have u: "buildUrl P path (get_prop (default_options opt) ''params'') = Inr ?url"
    by (rule buildUrl_valid [OF assms(1)])
  from request_init_eq [OF request_body_encoded [OF assms(2)]]
  obtain init where i: "request_init P m (default_options opt) = Inr init" by blast
  from u i request_after_fetch [OF u i] show ?thesis by blast
qed

section \<open>Failures of the call\<close>

text \<open>
  Claim C8. When the path is not a valid absolute URL (\<^verbatim>\<open>new URL(path)\<close> throws),
  \<^verbatim>\<open>buildUrl\<close> fails with the malformed-URL failure, and so does \<^verbatim>\<open>request\<close> and
  each of the five verbs: no network call is issued and no result is returned.
\<close>

theorem malformed_url_propagates:
  assumes "URL_parse P path = None"
  shows "buildUrl P path params = Inl MalformedURL \<and>
         request P m path opt = ([], Inl MalformedURL) \<and>
         http_get P path opt = ([], Inl MalformedURL) \<and>
         http_post P path body opt = ([], Inl MalformedURL) \<and>
         http_put P path body opt = ([], Inl MalformedURL) \<and>
         http_patch P path body opt = ([], Inl MalformedURL) \<and>
         http_delete P path opt = ([], Inl MalformedURL)"
  using assms
  by (simp add: buildUrl_def request_malformed http_get_def http_post_def http_put_def
        http_patch_def http_delete_def)

theorem malformed_url_propagates_witness:
  "URL_parse example_platform ''/api/users'' = None \<and>
   buildUrl example_platform ''/api/users'' (JObject [(''role'', JString ''admin'')])
     = Inl MalformedURL \<and>
   http_post example_platform ''/api/users'' (JObject [(''name'', JString ''Bob'')]) None
     = ([], Inl MalformedURL)"
proof -
  have h: "URL_parse example_platform ''/api/users'' = None"
    by (simp add: example_platform_def example_parse_def)
  show ?thesis
    using h malformed_url_propagates [OF h, of "JObject [(''role'', JString ''admin'')]"
        POST None "JObject [(''name'', JString ''Bob'')]"]
    by simp
qed

text \<open>
  Claim C7. When the \<^verbatim>\<open>content-type\<close> header of the response contains
  \<^verbatim>\<open>application/json\<close> and the body is not valid JSON text, the decode failure is the
  outcome of the call, whatever the status of the response: no result is returned.
\<close>

theorem json_decode_failure_propagates:
  assumes "Headers_get (resp_headers r) ''content-type'' = Some contentType"
      and "str_includes contentType ''application/json''"
      and "JSON_parse P (resp_body r) = None"
  shows "shape P r = Inl JsonDecodeFailure \<and>
         (buildUrl P path (get_prop (default_options opt) ''params'') = Inr url \<and>
          request_init P m (default_options opt) = Inr init \<and>
          fetch P url init = Some r \<longrightarrow>
          request P m path opt = ([(url, init)], Inl JsonDecodeFailure))"
proof -
  from assms have "decode_body P r = None" by (simp add: decode_body_def)
  then have "shape P r = Inl JsonDecodeFailure" by (simp add: shape_def)
  then show ?thesis by (auto simp: request_after_fetch)
qed

theorem json_decode_failure_propagates_witness:
  "Response_ok broken_ok_response \<and> \<not> Response_ok broken_response \<and>
   shape example_platform broken_ok_response = Inl JsonDecodeFailure \<and>
   shape example_platform broken_response = Inl JsonDecodeFailure \<and>
   request example_platform GET ''https://api.example.com/broken'' None =
     ([(''https://api.example.com/broken'',
        [(''method'', JString ''GET''), (''headers'', JObject []), (''body'', JUndefined)])],
      Inl JsonDecodeFailure)"
proof -
  let ?init = "[(''method'', JString ''GET''), (''headers'', JObject []),
                (''body'', JUndefined)] :: nat js_object"
  have h1: "Headers_get (resp_headers broken_response) ''content-type''
              = Some ''application/json''"
    by (simp add: broken_response_def Headers_get_def ascii_lower_def)
  have h1': "Headers_get (resp_headers broken_ok_response) ''content-type''
              = Some ''application/json''"
    by (simp add: broken_ok_response_def broken_response_def Headers_get_def ascii_lower_def)
  have h2: "str_includes ''application/json'' ''application/json''" by simp
  have h3: "JSON_parse example_platform (resp_body broken_response) = None"
    by (simp add: example_platform_def broken_response_def)
  have h3': "JSON_parse example_platform (resp_body broken_ok_response) = None"
    by (simp add: example_platform_def broken_ok_response_def broken_response_def)
  have url: "buildUrl example_platform ''https://api.example.com/broken''
               (get_prop (default_options None) ''params'')
             = Inr ''https://api.example.com/broken''"
    by (simp add: buildUrl_def example_platform_def example_parse_def default_options_def
          get_prop_def apply_params_def ToBoolean_def example_href_def)
  have init: "request_init example_platform GET (default_options None) = Inr ?init"
    by (simp add: request_init_def default_options_def get_prop_def request_body_def
          isJsonBody_def request_headers_def spread_def rest_props_def)
  have call: "fetch example_platform ''https://api.example.com/broken'' ?init
                = Some broken_response"
    by (simp add: example_platform_def example_fetch_def)
  have ok: "Response_ok broken_ok_response" "\<not> Response_ok broken_response"
    by (simp_all add: Response_ok_def broken_ok_response_def broken_response_def)
  show ?thesis
    using ok json_decode_failure_propagates [OF h1 h2 h3, of "''https://api.example.com/broken''"
        None "''https://api.example.com/broken''" GET ?init]
      json_decode_failure_propagates [OF h1' h2 h3', of "[]" None "[]" GET "[]"]
      url init call
    by simp
qed

section \<open>Shaping the response\<close>

lemma shape_eq:
  "shape P r =
     (if claims_json r
      then (case JSON_parse P (resp_body r) of
              None \<Rightarrow> Inl JsonDecodeFailure
            | Some d \<Rightarrow> Inr (result_of r d))
      else Inr (result_of r JNull))"
  by (simp add: shape_def decode_body_eq)

lemma claims_json_iff:
  "claims_json r \<longleftrightarrow>
     (\<exists>contentType pre post.
        Headers_get (resp_headers r) ''content-type'' = Some contentType \<and>
        contentType = pre @ ''application/json'' @ post)"
  by (auto simp: claims_json_def str_includes_iff split: option.splits)

lemma shape_explicit:
  "shape P r =
     (case (if claims_json r then JSON_parse P (resp_body r) else Some JNull) of
        None \<Rightarrow> Inl JsonDecodeFailure
      | Some d \<Rightarrow>
          Inr (if 200 \<le> resp_status r \<and> resp_status r \<le> 299
               then HttpResponseSuccess d (resp_status r) (resp_statusText r) (resp_headers r) r
               else HttpResponseError d (resp_status r) (resp_statusText r) (resp_headers r) r))"
  by (simp add: shape_eq result_of_def Response_ok_def split: option.splits)

lemma request_outcome:
  assumes "URL_parse P path = Some fullUrl"
      and "isJsonBody (get_prop (default_options opt) ''body'') \<longrightarrow>
             JSON_stringify P (get_prop (default_options opt) ''body'') = Some text"
  shows "\<exists>url init.
           fst (request P m path opt) = [(url, init)] \<and>
           (fetch P url init = None \<longrightarrow> snd (request P m path opt) = Inl TransportFailure) \<and>
           (\<forall>r. fetch P url init = Some r \<longrightarrow>
              snd (request P m path opt) =
                (case (if claims_json r then JSON_parse P (resp_body r) else Some JNull) of
                   None \<Rightarrow> Inl JsonDecodeFailure
                 | Some d \<Rightarrow>
                     Inr (if 200 \<le> resp_status r \<and> resp_status r \<le> 299
                          then HttpResponseSuccess d (resp_status r) (resp_statusText r)
                                 (resp_headers r) r
                          else HttpResponseError d (resp_status r) (resp_statusText r)
                                 (resp_headers r) r)))"
proof -
  from request_issues_one_call [OF assms, of m]
  obtain url init where
    r: "request P m path opt =
          ([(url, init)],
           case fetch P url init of None \<Rightarrow> Inl TransportFailure | Some r \<Rightarrow> shape P r)"
    by blast
  have "fst (request P m path opt) = [(url, init)]" by (simp add: r)
  moreover have "fetch P url init = None \<longrightarrow> snd (request P m path opt) = Inl TransportFailure"
    by (simp add: r)
  moreover have "\<forall>r. fetch P url init = Some r \<longrightarrow>
      snd (request P m path opt) =
        (case (if claims_json r then JSON_parse P (resp_body r) else Some JNull) of
           None \<Rightarrow> Inl JsonDecodeFailure
         | Some d \<Rightarrow>
             Inr (if 200 \<le> resp_status r \<and> resp_status r \<le> 299
                  then HttpResponseSuccess d (resp_status r) (resp_statusText r)
                         (resp_headers r) r
                  else HttpResponseError d (resp_status r) (resp_statusText r)
                         (resp_headers r) r))"
    by (simp add: r shape_explicit)
  ultimately show ?thesis by (intro exI [of _ url] exI [of _ init] conjI)
qed

text \<open>The calls that the examples issue.\<close>

lemma example_get_calls:
  "fst (request example_platform GET ''https://api.example.com/missing'' None)
     = [(''https://api.example.com/missing'',
         [(''method'', JString ''GET''), (''headers'', JObject []), (''body'', JUndefined)])]"
  "fst (request example_platform GET ''https://api.example.com/users/1'' None)
     = [(''https://api.example.com/users/1'',
         [(''method'', JString ''GET''), (''headers'', JObject []), (''body'', JUndefined)])]"
  "fst (request example_platform GET ''https://api.example.com/users'' None)
     = [(''https://api.example.com/users'',
         [(''method'', JString ''GET''), (''headers'', JObject []), (''body'', JUndefined)])]"
  by (simp_all add: request_def buildUrl_def example_platform_def example_parse_def
        default_options_def get_prop_def apply_params_def ToBoolean_def example_href_def
        request_init_def request_body_def isJsonBody_def request_headers_def spread_def
        rest_props_def example_fetch_def)

text \<open>
  Claim C2. The body is decoded as JSON exactly when the response has a
  \<^verbatim>\<open>content-type\<close> header whose value contains \<^verbatim>\<open>application/json\<close>: the data of
  the result is then the decoded value. Otherwise (another content type, or no such
  header) the data is \<^verbatim>\<open>null\<close> and no decoder is run: the result is the same under
  any other JSON decoder. In particular a response with status 204 and no
  \<^verbatim>\<open>content-type\<close> header gives the success variant with data \<^verbatim>\<open>null\<close>. The same
  holds of the call: when the path is a valid URL and the body is encoded, the outcome
  of \<^verbatim>\<open>request\<close> for the response that the transport returns is this result.
\<close>

theorem shape_decodes_json_exactly:
  "(claims_json r \<longleftrightarrow>
      (\<exists>contentType pre post.
         Headers_get (resp_headers r) ''content-type'' = Some contentType \<and>
         contentType = pre @ ''application/json'' @ post)) \<and>
   (\<forall>d. claims_json r \<and> JSON_parse P (resp_body r) = Some d \<longrightarrow>
      shape P r =
        Inr (if 200 \<le> resp_status r \<and> resp_status r \<le> 299
             then HttpResponseSuccess d (resp_status r) (resp_statusText r) (resp_headers r) r
             else HttpResponseError d (resp_status r) (resp_statusText r) (resp_headers r) r)) \<and>
   (claims_json r \<and> JSON_parse P (resp_body r) = None \<longrightarrow>
      shape P r = Inl JsonDecodeFailure) \<and>
   (\<not> claims_json r \<longrightarrow>
      shape P r =
        Inr (if 200 \<le> resp_status r \<and> resp_status r \<le> 299
             then HttpResponseSuccess JNull (resp_status r) (resp_statusText r)
                    (resp_headers r) r
             else HttpResponseError JNull (resp_status r) (resp_statusText r)
                    (resp_headers r) r) \<and>
      shape (P\<lparr>JSON_parse := other_decoder\<rparr>) r = shape P r) \<and>
   (\<forall>res. shape P r = Inr res \<longrightarrow>
      (if claims_json r then JSON_parse P (resp_body r) = Some (data res)
       else data res = JNull)) \<and>
   (resp_status r = 204 \<and> Headers_get (resp_headers r) ''content-type'' = None \<longrightarrow>
      shape P r =
        Inr (HttpResponseSuccess JNull 204 (resp_statusText r) (resp_headers r) r)) \<and>
   (URL_parse P path = Some fullUrl \<and>
    (isJsonBody (get_prop (default_options opt) ''body'') \<longrightarrow>
       JSON_stringify P (get_prop (default_options opt) ''body'') = Some text) \<longrightarrow>
      (\<exists>url init.
         fst (request P m path opt) = [(url, init)] \<and>
         (fetch P url init = Some r \<longrightarrow>
            snd (request P m path opt) =
              (case (if claims_json r then JSON_parse P (resp_body r) else Some JNull) of
                 None \<Rightarrow> Inl JsonDecodeFailure
               | Some d \<Rightarrow>
                   Inr (if 200 \<le> resp_status r \<and> resp_status r \<le> 299
                        then HttpResponseSuccess d (resp_status r) (resp_statusText r)
                               (resp_headers r) r
                        else HttpResponseError d (resp_status r) (resp_statusText r)
                               (resp_headers r) r)))))"
proof -
  have header: "claims_json r \<longleftrightarrow>
      (\<exists>contentType pre post.
         Headers_get (resp_headers r) ''content-type'' = Some contentType \<and>
         contentType = pre @ ''application/json'' @ post)"
    by (rule claims_json_iff)
  have decoded: "\<forall>d. claims_json r \<and> JSON_parse P (resp_body r) = Some d \<longrightarrow>
      shape P r =
        Inr (if 200 \<le> resp_status r \<and> resp_status r \<le> 299
             then HttpResponseSuccess d (resp_status r) (resp_statusText r) (resp_headers r) r
             else HttpResponseError d (resp_status r) (resp_statusText r) (resp_headers r) r)"
    by (simp add: shape_explicit)
  have failed: "claims_json r \<and> JSON_parse P (resp_body r) = None \<longrightarrow>
      shape P r = Inl JsonDecodeFailure"
    by (simp add: shape_explicit)
  have null: "\<not> claims_json r \<longrightarrow>
      shape P r =
        Inr (if 200 \<le> resp_status r \<and> resp_status r \<le> 299
             then HttpResponseSuccess JNull (resp_status r) (resp_statusText r)
                    (resp_headers r) r
             else HttpResponseError JNull (resp_status r) (resp_statusText r)
                    (resp_headers r) r) \<and>
      shape (P\<lparr>JSON_parse := other_decoder\<rparr>) r = shape P r"
    by (simp add: shape_explicit)
  have field: "\<forall>res. shape P r = Inr res \<longrightarrow>
      (if claims_json r then JSON_parse P (resp_body r) = Some (data res)
       else data res = JNull)"
    by (auto simp: shape_explicit split: option.splits if_splits)
  have no_content: "resp_status r = 204 \<and>
      Headers_get (resp_headers r) ''content-type'' = None \<longrightarrow>
      shape P r =
        Inr (HttpResponseSuccess JNull 204 (resp_statusText r) (resp_headers r) r)"
    by (simp add: shape_explicit claims_json_def)
  have call: "URL_parse P path = Some fullUrl \<and>
    (isJsonBody (get_prop (default_options opt) ''body'') \<longrightarrow>
       JSON_stringify P (get_prop (default_options opt) ''body'') = Some text) \<longrightarrow>
      (\<exists>url init.
         fst (request P m path opt) = [(url, init)] \<and>
         (fetch P url init = Some r \<longrightarrow>
            snd (request P m path opt) =
              (case (if claims_json r then JSON_parse P (resp_body r) else Some JNull) of
                 None \<Rightarrow> Inl JsonDecodeFailure
               | Some d \<Rightarrow>
                   Inr (if 200 \<le> resp_status r \<and> resp_status r \<le> 299
                        then HttpResponseSuccess d (resp_status r) (resp_statusText r)
                               (resp_headers r) r
                        else HttpResponseError d (resp_status r) (resp_statusText r)
                               (resp_headers r) r))))"
  proof (intro impI, elim conjE)
    assume u: "URL_parse P path = Some fullUrl"
      and e: "isJsonBody (get_prop (default_options opt) ''body'') \<longrightarrow>
                JSON_stringify P (get_prop (default_options opt) ''body'') = Some text"
    from request_outcome [OF u e, of m]
    obtain url init where
      c: "fst (request P m path opt) = [(url, init)]" and
      o: "\<forall>r. fetch P url init = Some r \<longrightarrow>
            snd (request P m path opt) =
              (case (if claims_json r then JSON_parse P (resp_body r) else Some JNull) of
                 None \<Rightarrow> Inl JsonDecodeFailure
               | Some d \<Rightarrow>
                   Inr (if 200 \<le> resp_status r \<and> resp_status r \<le> 299
                        then HttpResponseSuccess d (resp_status r) (resp_statusText r)
                               (resp_headers r) r
                        else HttpResponseError d (resp_status r) (resp_statusText r)
                               (resp_headers r) r))"
      by (elim conjE exE) (rule that; assumption)
    from c o [rule_format, of r]
    show "\<exists>url init.
         fst (request P m path opt) = [(url, init)] \<and>
         (fetch P url init = Some r \<longrightarrow>
            snd (request P m path opt) =
              (case (if claims_json r then JSON_parse P (resp_body r) else Some JNull) of
                 None \<Rightarrow> Inl JsonDecodeFailure
               | Some d \<Rightarrow>
                   Inr (if 200 \<le> resp_status r \<and> resp_status r \<le> 299
                        then HttpResponseSuccess d (resp_status r) (resp_statusText r)
                               (resp_headers r) r
                        else HttpResponseError d (resp_status r) (resp_statusText r)
                               (resp_headers r) r)))"
      by (intro exI [of _ url] exI [of _ init] conjI impI)
  qed
  show ?thesis
    by (rule conjI [OF header conjI [OF decoded conjI [OF failed conjI [OF null
          conjI [OF field conjI [OF no_content call]]]]]])
qed

theorem shape_decodes_json_exactly_witness:
  "claims_json created_response \<and>
   shape example_platform created_response =
     Inr (HttpResponseSuccess (JObject [(''id'', JNumber 1)]) 201 ''Created''
            [(''Content-Type'', ''application/json; charset=utf-8'')] created_response) \<and>
   claims_json validation_response \<and>
   shape example_platform validation_response =
     Inr (HttpResponseError (JArray [JNumber 1, JNumber 2]) 422 ''Unprocessable Entity''
            [(''Content-Type'', ''application/json'')] validation_response) \<and>
   \<not> claims_json not_found_response \<and>
   shape example_platform not_found_response =
     Inr (HttpResponseError JNull 404 ''Not Found'' [(''content-type'', ''text/html'')]
            not_found_response) \<and>
   resp_status no_content_response = 204 \<and>
   Headers_get (resp_headers no_content_response) ''content-type'' = None \<and>
   shape example_platform no_content_response =
     Inr (HttpResponseSuccess JNull 204 ''No Content'' [] no_content_response) \<and>
   request example_platform GET ''https://api.example.com/users/1'' None =
     ([(''https://api.example.com/users/1'',
        [(''method'', JString ''GET''), (''headers'', JObject []), (''body'', JUndefined)])],
      Inr (HttpResponseSuccess JNull 204 ''No Content'' [] no_content_response))"
proof -
  let ?init = "[(''method'', JString ''GET''), (''headers'', JObject []),
                (''body'', JUndefined)] :: nat js_object"
  have c: "claims_json created_response"
    by (simp add: claims_json_def created_response_def Headers_get_def ascii_lower_def)
  have v: "claims_json validation_response"
    by (simp add: claims_json_def validation_response_def Headers_get_def ascii_lower_def)
  have n: "\<not> claims_json not_found_response"
    by (simp add: claims_json_def not_found_response_def Headers_get_def ascii_lower_def)
  have e: "resp_status no_content_response = 204"
          "Headers_get (resp_headers no_content_response) ''content-type'' = None"
    by (simp_all add: no_content_response_def Headers_get_def)
  have pc: "JSON_parse example_platform (resp_body created_response)
             = Some (JObject [(''id'', JNumber 1)])"
    by (simp add: example_platform_def created_response_def)
  have pv: "JSON_parse example_platform (resp_body validation_response)
             = Some (JArray [JNumber 1, JNumber 2])"
    by (simp add: example_platform_def validation_response_def)
  have fc: "resp_status created_response = 201"
           "resp_statusText created_response = ''Created''"
           "resp_headers created_response
              = [(''Content-Type'', ''application/json; charset=utf-8'')]"
    by (simp_all add: created_response_def)
  have fv: "resp_status validation_response = 422"
           "resp_statusText validation_response = ''Unprocessable Entity''"
           "resp_headers validation_response = [(''Content-Type'', ''application/json'')]"
    by (simp_all add: validation_response_def)
  have fn: "resp_status not_found_response = 404"
           "resp_statusText not_found_response = ''Not Found''"
           "resp_headers not_found_response = [(''content-type'', ''text/html'')]"
    by (simp_all add: not_found_response_def)
  have fe: "resp_statusText no_content_response = ''No Content''"
           "resp_headers no_content_response = []"
    by (simp_all add: no_content_response_def)
  note created = shape_decodes_json_exactly
    [where r = created_response and P = example_platform,
     THEN conjunct2, THEN conjunct1, rule_format, OF conjI [OF c pc]]
  note invalid = shape_decodes_json_exactly
    [where r = validation_response and P = example_platform,
     THEN conjunct2, THEN conjunct1, rule_format, OF conjI [OF v pv]]
  note missing = shape_decodes_json_exactly
    [where r = not_found_response and P = example_platform,
     THEN conjunct2, THEN conjunct2, THEN conjunct2, THEN conjunct1, rule_format, OF n,
     THEN conjunct1]
  note empty = shape_decodes_json_exactly
    [where r = no_content_response and P = example_platform,
     THEN conjunct2, THEN conjunct2, THEN conjunct2, THEN conjunct2, THEN conjunct2,
     THEN conjunct1, rule_format, OF conjI [OF e]]
  have s1: "shape example_platform created_response =
     Inr (HttpResponseSuccess (JObject [(''id'', JNumber 1)]) 201 ''Created''
            [(''Content-Type'', ''application/json; charset=utf-8'')] created_response)"
    using created by (simp add: fc)
  have s2: "shape example_platform validation_response =
     Inr (HttpResponseError (JArray [JNumber 1, JNumber 2]) 422 ''Unprocessable Entity''
            [(''Content-Type'', ''application/json'')] validation_response)"
    using invalid by (simp add: fv)
  have s3: "shape example_platform not_found_response =
     Inr (HttpResponseError JNull 404 ''Not Found'' [(''content-type'', ''text/html'')]
            not_found_response)"
    using missing by (simp add: fn)
  have s4: "shape example_platform no_content_response =
     Inr (HttpResponseSuccess JNull 204 ''No Content'' [] no_content_response)"
    using empty by (simp add: fe)
  have h1: "URL_parse example_platform ''https://api.example.com/users/1''
              = Some \<lparr>before_query = ''https://api.example.com/users/1'', searchParams = [],
                        fragment = None\<rparr>"
    by (simp add: example_platform_def example_parse_def)
  have h2: "isJsonBody (get_prop (default_options (None :: nat js_object option)) ''body'') \<longrightarrow>
              JSON_stringify example_platform (get_prop (default_options None) ''body'')
                = Some []"
    by (simp add: default_options_def get_prop_def isJsonBody_def)
  note call = shape_decodes_json_exactly
    [where r = no_content_response and P = example_platform and m = GET,
     THEN conjunct2, THEN conjunct2, THEN conjunct2, THEN conjunct2, THEN conjunct2,
     THEN conjunct2, rule_format, OF conjI [OF h1 h2]]
  from call obtain url init where
    calls: "fst (request example_platform GET ''https://api.example.com/users/1'' None)
              = [(url, init)]" and
    outcome: "fetch example_platform url init = Some no_content_response \<longrightarrow>
       snd (request example_platform GET ''https://api.example.com/users/1'' None) =
         (case (if claims_json no_content_response
                then JSON_parse example_platform (resp_body no_content_response)
                else Some JNull) of
            None \<Rightarrow> Inl JsonDecodeFailure
          | Some d \<Rightarrow>
              Inr (if 200 \<le> resp_status no_content_response \<and>
                      resp_status no_content_response \<le> 299
                   then HttpResponseSuccess d (resp_status no_content_response)
                          (resp_statusText no_content_response)
                          (resp_headers no_content_response) no_content_response
                   else HttpResponseError d (resp_status no_content_response)
                          (resp_statusText no_content_response)
                          (resp_headers no_content_response) no_content_response))"
    by (elim conjE exE) (rule that; assumption)
  from calls example_get_calls(2)
  have url: "url = ''https://api.example.com/users/1''" and init: "init = ?init"
    by simp_all
  have answered: "fetch example_platform url init = Some no_content_response"
    by (simp add: url example_platform_def example_fetch_def)
  have ne: "\<not> claims_json no_content_response"
    by (simp add: claims_json_def e)
  from outcome answered
  have result: "snd (request example_platform GET ''https://api.example.com/users/1'' None)
      = Inr (HttpResponseSuccess JNull 204 ''No Content'' [] no_content_response)"
    by (simp add: ne e fe)
  have s5: "request example_platform GET ''https://api.example.com/users/1'' None =
     ([(''https://api.example.com/users/1'', ?init)],
      Inr (HttpResponseSuccess JNull 204 ''No Content'' [] no_content_response))"
    using calls result by (simp add: url init prod_eq_iff)
  show ?thesis
    by (rule conjI [OF c conjI [OF s1 conjI [OF v conjI [OF s2 conjI [OF n conjI [OF s3
          conjI [OF e(1) conjI [OF e(2) conjI [OF s4 s5]]]]]]]]])
qed

text \<open>
  Claim C1, as amended. The variant of a returned result is decided by
  \<^verbatim>\<open>response.ok\<close> alone (a status from 200 to 299), and its status, status text,
  headers and raw response are those of the transport response. The status never makes
  the call fail: once the transport has answered, the call fails only when the content
  type says JSON and the body does not decode, and then with the decode failure,
  whatever the status. When that does not happen, a response with another status gives
  the error variant, with the data that the success variant would carry for the same
  headers and body. This holds of \<^verbatim>\<open>shape\<close> and of the call: for a valid URL and an
  encoded body, \<^verbatim>\<open>request\<close> issues its call and its outcome for the response the
  transport returns is the one described; the five verbs are calls of \<^verbatim>\<open>request\<close>.
\<close>

theorem status_never_raises:
  "(\<forall>res. shape P r = Inr res \<longrightarrow>
      ok res = (200 \<le> resp_status r \<and> resp_status r \<le> 299) \<and>
      status res = resp_status r \<and> statusText res = resp_statusText r \<and>
      headers res = resp_headers r \<and> response res = r) \<and>
   ((\<exists>res. shape P r = Inr res) \<longleftrightarrow>
      \<not> (claims_json r \<and> JSON_parse P (resp_body r) = None)) \<and>
   (claims_json r \<and> JSON_parse P (resp_body r) = None \<longrightarrow>
      shape P r = Inl JsonDecodeFailure) \<and>
   (\<not> (200 \<le> resp_status r \<and> resp_status r \<le> 299) \<and>
    \<not> (claims_json r \<and> JSON_parse P (resp_body r) = None) \<longrightarrow>
      (\<exists>d. shape P r =
              Inr (HttpResponseError d (resp_status r) (resp_statusText r) (resp_headers r) r) \<and>
           shape P (r\<lparr>resp_status := 200\<rparr>) =
              Inr (HttpResponseSuccess d 200 (resp_statusText r) (resp_headers r)
                     (r\<lparr>resp_status := 200\<rparr>)))) \<and>
   (URL_parse P path = Some fullUrl \<and>
    (isJsonBody (get_prop (default_options opt) ''body'') \<longrightarrow>
       JSON_stringify P (get_prop (default_options opt) ''body'') = Some text) \<longrightarrow>
      (\<exists>url init.
         fst (request P m path opt) = [(url, init)] \<and>
         (fetch P url init = Some r \<longrightarrow>
            snd (request P m path opt) =
              (case (if claims_json r then JSON_parse P (resp_body r) else Some JNull) of
                 None \<Rightarrow> Inl JsonDecodeFailure
               | Some d \<Rightarrow>
                   Inr (if 200 \<le> resp_status r \<and> resp_status r \<le> 299
                        then HttpResponseSuccess d (resp_status r) (resp_statusText r)
                               (resp_headers r) r
                        else HttpResponseError d (resp_status r) (resp_statusText r)
                               (resp_headers r) r))))) \<and>
   (http_get P path opt = request P GET path opt \<and>
    http_delete P path opt = request P DELETE path opt \<and>
    http_post P path b opt = request P POST path (Some (with_body opt b)) \<and>
    http_put P path b opt = request P PUT path (Some (with_body opt b)) \<and>
    http_patch P path b opt = request P PATCH path (Some (with_body opt b)))"
proof -
  have same: "claims_json (r\<lparr>resp_status := 200\<rparr>) = claims_json r"
    by (simp add: claims_json_def)
  have fields: "\<forall>res. shape P r = Inr res \<longrightarrow>
      ok res = (200 \<le> resp_status r \<and> resp_status r \<le> 299) \<and>
      status res = resp_status r \<and> statusText res = resp_statusText r \<and>
      headers res = resp_headers r \<and> response res = r"
    by (auto simp: shape_eq result_of_def Response_ok_def split: if_splits option.splits)
  have returns: "(\<exists>res. shape P r = Inr res) \<longleftrightarrow>
      \<not> (claims_json r \<and> JSON_parse P (resp_body r) = None)"
    by (auto simp: shape_eq split: option.splits)
  have failed: "claims_json r \<and> JSON_parse P (resp_body r) = None \<longrightarrow>
      shape P r = Inl JsonDecodeFailure"
    by (simp add: shape_eq)
  have variant: "\<not> (200 \<le> resp_status r \<and> resp_status r \<le> 299) \<and>
    \<not> (claims_json r \<and> JSON_parse P (resp_body r) = None) \<longrightarrow>
      (\<exists>d. shape P r =
              Inr (HttpResponseError d (resp_status r) (resp_statusText r) (resp_headers r) r) \<and>
           shape P (r\<lparr>resp_status := 200\<rparr>) =
              Inr (HttpResponseSuccess d 200 (resp_statusText r) (resp_headers r)
                     (r\<lparr>resp_status := 200\<rparr>)))"
    by (auto simp: shape_eq same result_of_def Response_ok_def split: option.splits)
  have call: "URL_parse P path = Some fullUrl \<and>
    (isJsonBody (get_prop (default_options opt) ''body'') \<longrightarrow>
       JSON_stringify P (get_prop (default_options opt) ''body'') = Some text) \<longrightarrow>
      (\<exists>url init.
         fst (request P m path opt) = [(url, init)] \<and>
         (fetch P url init = Some r \<longrightarrow>
            snd (request P m path opt) =
              (case (if claims_json r then JSON_parse P (resp_body r) else Some JNull) of
                 None \<Rightarrow> Inl JsonDecodeFailure
               | Some d \<Rightarrow>
                   Inr (if 200 \<le> resp_status r \<and> resp_status r \<le> 299
                        then HttpResponseSuccess d (resp_status r) (resp_statusText r)
                               (resp_headers r) r
                        else HttpResponseError d (resp_status r) (resp_statusText r)
                               (resp_headers r) r))))"
  proof (intro impI, elim conjE)
    assume u: "URL_parse P path = Some fullUrl"
      and e: "isJsonBody (get_prop (default_options opt) ''body'') \<longrightarrow>
                JSON_stringify P (get_prop (default_options opt) ''body'') = Some text"
    from request_outcome [OF u e, of m]
    obtain url init where
      c: "fst (request P m path opt) = [(url, init)]" and
      o: "\<forall>r. fetch P url init = Some r \<longrightarrow>
            snd (request P m path opt) =
              (case (if claims_json r then JSON_parse P (resp_body r) else Some JNull) of
                 None \<Rightarrow> Inl JsonDecodeFailure
               | Some d \<Rightarrow>
                   Inr (if 200 \<le> resp_status r \<and> resp_status r \<le> 299
                        then HttpResponseSuccess d (resp_status r) (resp_statusText r)
                               (resp_headers r) r
                        else HttpResponseError d (resp_status r) (resp_statusText r)
                               (resp_headers r) r))"
      by (elim conjE exE) (rule that; assumption)
    from c o [rule_format, of r]
    show "\<exists>url init.
         fst (request P m path opt) = [(url, init)] \<and>
         (fetch P url init = Some r \<longrightarrow>
            snd (request P m path opt) =
              (case (if claims_json r then JSON_parse P (resp_body r) else Some JNull) of
                 None \<Rightarrow> Inl JsonDecodeFailure
               | Some d \<Rightarrow>
                   Inr (if 200 \<le> resp_status r \<and> resp_status r \<le> 299
                        then HttpResponseSuccess d (resp_status r) (resp_statusText r)
                               (resp_headers r) r
                        else HttpResponseError d (resp_status r) (resp_statusText r)
                               (resp_headers r) r)))"
      by (intro exI [of _ url] exI [of _ init] conjI impI)
  qed
  have verbs: "http_get P path opt = request P GET path opt \<and>
    http_delete P path opt = request P DELETE path opt \<and>
    http_post P path b opt = request P POST path (Some (with_body opt b)) \<and>
    http_put P path b opt = request P PUT path (Some (with_body opt b)) \<and>
    http_patch P path b opt = request P PATCH path (Some (with_body opt b))"
    by (simp add: http_get_def http_delete_def http_post_def http_put_def http_patch_def)
  show ?thesis
    by (rule conjI [OF fields conjI [OF returns conjI [OF failed conjI [OF variant
          conjI [OF call verbs]]]]])
qed

theorem status_never_raises_witness:
  "\<not> (200 \<le> resp_status not_found_response \<and> resp_status not_found_response \<le> 299) \<and>
   \<not> (claims_json not_found_response \<and>
      JSON_parse example_platform (resp_body not_found_response) = None) \<and>
   (\<exists>d. shape example_platform not_found_response =
           Inr (HttpResponseError d 404 ''Not Found'' [(''content-type'', ''text/html'')]
                  not_found_response) \<and>
        shape example_platform (not_found_response\<lparr>resp_status := 200\<rparr>) =
           Inr (HttpResponseSuccess d 200 ''Not Found'' [(''content-type'', ''text/html'')]
                  (not_found_response\<lparr>resp_status := 200\<rparr>))) \<and>
   http_get example_platform ''https://api.example.com/missing'' None =
     ([(''https://api.example.com/missing'',
        [(''method'', JString ''GET''), (''headers'', JObject []), (''body'', JUndefined)])],
      Inr (HttpResponseError JNull 404 ''Not Found'' [(''content-type'', ''text/html'')]
             not_found_response))"
proof -
  let ?init = "[(''method'', JString ''GET''), (''headers'', JObject []),
                (''body'', JUndefined)] :: nat js_object"
  have s: "\<not> (200 \<le> resp_status not_found_response \<and> resp_status not_found_response \<le> 299)"
    by (simp add: not_found_response_def)
  have n: "\<not> claims_json not_found_response"
    by (simp add: claims_json_def not_found_response_def Headers_get_def ascii_lower_def)
  then have n': "\<not> (claims_json not_found_response \<and>
      JSON_parse example_platform (resp_body not_found_response) = None)"
    by simp
  have f: "resp_status not_found_response = 404"
          "resp_statusText not_found_response = ''Not Found''"
          "resp_headers not_found_response = [(''content-type'', ''text/html'')]"
    by (simp_all add: not_found_response_def)
  note inst = status_never_raises
    [where r = not_found_response and P = example_platform and m = GET and
       path = "''https://api.example.com/missing''" and opt = None]
  note variant = inst [THEN conjunct2, THEN conjunct2, THEN conjunct2, THEN conjunct1,
    rule_format, OF conjI [OF s n'], unfolded f]
  have h1: "URL_parse example_platform ''https://api.example.com/missing''
              = Some \<lparr>before_query = ''https://api.example.com/missing'', searchParams = [],
                        fragment = None\<rparr>"
    by (simp add: example_platform_def example_parse_def)
  have h2: "isJsonBody (get_prop (default_options (None :: nat js_object option)) ''body'') \<longrightarrow>
              JSON_stringify example_platform (get_prop (default_options None) ''body'')
                = Some []"
    by (simp add: default_options_def get_prop_def isJsonBody_def)
  note call = inst [THEN conjunct2, THEN conjunct2, THEN conjunct2, THEN conjunct2,
    THEN conjunct1, rule_format, OF conjI [OF h1 h2]]
  note verb = inst [THEN conjunct2, THEN conjunct2, THEN conjunct2, THEN conjunct2,
    THEN conjunct2, THEN conjunct1]
  from call obtain url init where
    calls: "fst (request example_platform GET ''https://api.example.com/missing'' None)
              = [(url, init)]" and
    outcome: "fetch example_platform url init = Some not_found_response \<longrightarrow>
       snd (request example_platform GET ''https://api.example.com/missing'' None) =
         (case (if claims_json not_found_response
                then JSON_parse example_platform (resp_body not_found_response)
                else Some JNull) of
            None \<Rightarrow> Inl JsonDecodeFailure
          | Some d \<Rightarrow>
              Inr (if 200 \<le> resp_status not_found_response \<and>
                      resp_status not_found_response \<le> 299
                   then HttpResponseSuccess d (resp_status not_found_response)
                          (resp_statusText not_found_response)
                          (resp_headers not_found_response) not_found_response
                   else HttpResponseError d (resp_status not_found_response)
                          (resp_statusText not_found_response)
                          (resp_headers not_found_response) not_found_response))"
    by (elim conjE exE) (rule that; assumption)
  from calls example_get_calls(1)
  have url: "url = ''https://api.example.com/missing''" and init: "init = ?init"
    by simp_all
  have answered: "fetch example_platform url init = Some not_found_response"
    by (simp add: url example_platform_def example_fetch_def)
  from outcome answered
  have result: "snd (request example_platform GET ''https://api.example.com/missing'' None)
      = Inr (HttpResponseError JNull 404 ''Not Found'' [(''content-type'', ''text/html'')]
               not_found_response)"
    by (simp add: n f)
  have got: "http_get example_platform ''https://api.example.com/missing'' None =
     ([(''https://api.example.com/missing'', ?init)],
      Inr (HttpResponseError JNull 404 ''Not Found'' [(''content-type'', ''text/html'')]
             not_found_response))"
    using calls result by (simp add: verb url init prod_eq_iff)
  show ?thesis
    by (rule conjI [OF s conjI [OF n' conjI [OF variant got]]])
qed

text \<open>
  The claim as first stated (a response with a non-success status never makes the call
  fail) does not hold: a response with status 500 whose content type says JSON and
  whose body is an HTML page makes the call fail with the decode failure.
\<close>

theorem status_500_raises_counterexample:
  "resp_status broken_response = 500 \<and> \<not> Response_ok broken_response \<and>
   shape example_platform broken_response = Inl JsonDecodeFailure \<and>
   snd (http_get example_platform ''https://api.example.com/broken'' None)
     = Inl JsonDecodeFailure"
  by (simp add: http_get_def request_def buildUrl_def example_platform_def example_parse_def
        default_options_def get_prop_def apply_params_def ToBoolean_def example_href_def
        request_init_def request_body_def isJsonBody_def request_headers_def spread_def
        rest_props_def example_fetch_def shape_def decode_body_def broken_response_def
        Headers_get_def ascii_lower_def Response_ok_def)

section \<open>What is forwarded to the transport\<close>



section \<open>The verbs with a body\<close>

lemma with_body_distinct:
  assumes "distinct (map fst obj)"
  shows "with_body (Some obj) body = define_prop ''body'' body obj"
  using assms by (simp add: with_body_def spread_empty_object)

lemma map_fst_define_prop:
  "map fst (define_prop k v ps) = (if k \<in> fst ` set ps then map fst ps else map fst ps @ [k])"
  by (induction ps) (force simp: image_iff)+

lemma distinct_define_prop:
  "distinct (map fst ps) \<Longrightarrow> distinct (map fst (define_prop k v ps))"
  by (simp add: map_fst_define_prop)

lemma with_body_ignores_own_body:
  assumes "distinct (map fst obj)"
  shows "with_body (Some (define_prop ''body'' x obj)) body = with_body (Some obj) body"
  using assms
  by (simp add: with_body_distinct distinct_define_prop define_prop_twice)

text \<open>
  Claim C10. \<^verbatim>\<open>post\<close>, \<^verbatim>\<open>put\<close> and \<^verbatim>\<open>patch\<close> call \<^verbatim>\<open>request\<close> with
  \<^verbatim>\<open>{ ...options, body }\<close>: the \<^verbatim>\<open>body\<close> of that object is always the positional
  argument, also when it is \<^verbatim>\<open>undefined\<close>, and a \<^verbatim>\<open>body\<close> inside \<open>options\<close> has no
  effect on the call; the other options are kept. With an \<^verbatim>\<open>undefined\<close> positional
  body the classifier sees \<^verbatim>\<open>undefined\<close>: nothing is encoded and the body forwarded is
  \<^verbatim>\<open>undefined\<close>.
\<close>

theorem positional_body_overwrites:
  "http_post P path body opt = request P POST path (Some (with_body opt body)) \<and>
   http_put P path body opt = request P PUT path (Some (with_body opt body)) \<and>
   http_patch P path body opt = request P PATCH path (Some (with_body opt body)) \<and>
   get_prop (with_body opt body) ''body'' = body \<and>
   (distinct (map fst obj) \<longrightarrow>
      http_post P path body (Some (define_prop ''body'' x obj))
        = http_post P path body (Some obj) \<and>
      http_put P path body (Some (define_prop ''body'' x obj))
        = http_put P path body (Some obj) \<and>
      http_patch P path body (Some (define_prop ''body'' x obj))
        = http_patch P path body (Some obj)) \<and>
   (distinct (map fst obj) \<and> k \<noteq> ''body'' \<longrightarrow>
      get_prop (with_body (Some obj) body) k = get_prop obj k) \<and>
   \<not> isJsonBody (get_prop (with_body opt JUndefined) ''body'') \<and>
   request_body P (get_prop (with_body opt JUndefined) ''body'') = Some JUndefined"
proof -
  have own: "get_prop (with_body opt b) ''body'' = b" for b :: "'a js_value"
    by (simp add: with_body_def get_prop_define_prop)
  have kept: "distinct (map fst obj) \<and> k \<noteq> ''body'' \<longrightarrow>
      get_prop (with_body (Some obj) body) k = get_prop obj k"
    by (simp add: with_body_distinct get_prop_define_prop)
  have undef: "\<not> isJsonBody (get_prop (with_body opt JUndefined) ''body'')"
    by (simp add: own isJsonBody_def)
  then have none: "request_body P (get_prop (with_body opt JUndefined) ''body'') = Some JUndefined"
    by (simp add: request_body_def own)
  show ?thesis
    using own [of body] kept undef none
    by (simp add: http_post_def http_put_def http_patch_def with_body_ignores_own_body)
qed

theorem positional_body_overwrites_witness:
  "distinct (map fst ([] :: nat js_object)) \<and>
   http_post example_platform ''https://api.example.com/users'' JUndefined
     (Some [(''body'', JObject [(''name'', JString ''Bob'')])])
   = ([(''https://api.example.com/users'',
        [(''method'', JString ''POST''), (''headers'', JObject []), (''body'', JUndefined)])],
      Inr (HttpResponseSuccess (JObject [(''id'', JNumber 1)]) 201 ''Created''
             [(''Content-Type'', ''application/json; charset=utf-8'')] created_response))"
proof -
  have d: "distinct (map fst ([] :: nat js_object))" by simp
  have e: "define_prop ''body'' (JObject [(''name'', JString ''Bob'')]) ([] :: nat js_object)
             = [(''body'', JObject [(''name'', JString ''Bob'')])]"
    by simp
  have run: "http_post example_platform ''https://api.example.com/users'' JUndefined (Some [])
   = ([(''https://api.example.com/users'',
        [(''method'', JString ''POST''), (''headers'', JObject []), (''body'', JUndefined)])],
      Inr (HttpResponseSuccess (JObject [(''id'', JNumber 1)]) 201 ''Created''
             [(''Content-Type'', ''application/json; charset=utf-8'')] created_response))"
    by (simp add: http_post_def with_body_def request_def buildUrl_def example_platform_def
          example_parse_def default_options_def get_prop_def apply_params_def ToBoolean_def
          example_href_def request_init_def request_body_def isJsonBody_def
          request_headers_def spread_def rest_props_def example_fetch_def shape_def
          decode_body_def result_of_def Response_ok_def created_response_def Headers_get_def
          ascii_lower_def)
  show ?thesis
    using d run
      positional_body_overwrites [of example_platform "''https://api.example.com/users''"
        JUndefined None "[]" "JObject [(''name'', JString ''Bob'')]"]
    by (simp only: e)
qed

section \<open>The header mapping\<close>

lemma request_headers_no_default:
  "\<not> isJsonBody body \<Longrightarrow> request_headers body hdrs = spread [] hdrs"
  by (simp add: request_headers_def spread_def)

lemma request_headers_plain_object:
  assumes "distinct (map fst hs)"
  shows "map_of (request_headers body (JObject hs)) =
           (if isJsonBody body then [''Content-Type'' \<mapsto> JString ''application/json'']
            else Map.empty) ++ map_of hs"
  using assms
  by (simp add: request_headers_def map_of_spread map_of_rev_distinct)

lemma request_headers_absent:
  "request_headers body JUndefined =
     (if isJsonBody body then [(''Content-Type'', JString ''application/json'')] else [])"
  by (simp add: request_headers_def spread_def)

text \<open>
  Claim C4. The header object passed to the transport is
  \<^verbatim>\<open>{ ...(isJsonBody && { 'Content-Type': 'application/json' }), ...headers }\<close>. For
  caller headers given as a plain object the lemmas above give the ordered merge of the
  claim: the default only when \<^verbatim>\<open>isJsonBody\<close> holds, then the caller's entries, the
  later entry winning under the same key. The type of \<^verbatim>\<open>headers\<close>, \<^verbatim>\<open>HeadersInit\<close>,
  also admits a \<^verbatim>\<open>Headers\<close> instance and an array of pairs. The spread copies own
  enumerable properties, and a \<^verbatim>\<open>Headers\<close> instance has none: the caller's
  \<^verbatim>\<open>Content-Type\<close> is dropped and the injected default stays. The elements of an array
  of pairs are copied under their indices, next to the default.
\<close>

theorem headers_instance_not_merged:
  "request_headers (JObject [(''name'', JString ''Bob'')] :: nat js_value)
     (JHeaders [(''Content-Type'', ''text/plain'')])
     = [(''Content-Type'', JString ''application/json'')] \<and>
   map_of (request_headers (JObject [(''name'', JString ''Bob'')] :: nat js_value)
             (JArray [JArray [JString ''Content-Type'', JString ''text/plain'']]))
     ''Content-Type'' = Some (JString ''application/json'') \<and>
   map_of (request_headers (JObject [(''name'', JString ''Bob'')] :: nat js_value)
             (JArray [JArray [JString ''Content-Type'', JString ''text/plain'']]))
     ''0'' = Some (JArray [JString ''Content-Type'', JString ''text/plain'']) \<and>
   request_headers (JObject [(''name'', JString ''Bob'')] :: nat js_value)
     (JObject [(''Content-Type'', JString ''text/plain'')])
     = [(''Content-Type'', JString ''text/plain'')] \<and>
   fst (http_post example_platform ''https://api.example.com/users''
          (JObject [(''name'', JString ''Bob'')])
          (Some [(''headers'', JHeaders [(''Content-Type'', ''text/plain'')])]))
     = [(''https://api.example.com/users'',
         [(''method'', JString ''POST''),
          (''headers'', JObject [(''Content-Type'', JString ''application/json'')]),
          (''body'', JString ''{\"name\":\"Bob\"}'')])]"
proof -
  have zero: "decimal 0 = ''0''" by (simp add: decimal.simps)
  have upt: "[0..<Suc 0] = [0]" by simp
  show ?thesis
    by (simp add: request_headers_def spread_def isJsonBody_def zero upt
          http_post_def with_body_def request_def buildUrl_def example_platform_def
          example_parse_def default_options_def get_prop_def apply_params_def ToBoolean_def
          example_href_def request_init_def request_body_def rest_props_def
          example_fetch_def)
qed

section \<open>Setting query parameters\<close>

lemma key_in_iff: "k \<in> fst ` set ps \<longleftrightarrow> map_of ps k \<noteq> None"
  by (simp add: map_of_eq_None_iff)

lemma filter_other_keys:
  "k \<noteq> name \<Longrightarrow> map_of (filter (\<lambda>q. fst q \<noteq> name) ps) k = map_of ps k"
  by (induction ps) auto

lemma count_filter_other_keys:
  "k \<noteq> name \<Longrightarrow>
   count_list (map fst (filter (\<lambda>q. fst q \<noteq> name) ps)) k = count_list (map fst ps) k"
  by (induction ps) auto

lemma count_filter_this_key:
  "count_list (map fst (filter (\<lambda>q. fst q \<noteq> name) ps)) name = 0"
  by (induction ps) auto

lemma map_of_set_existing:
  "map_of ps name \<noteq> None \<Longrightarrow> map_of (set_existing name v ps) = (map_of ps)(name \<mapsto> v)"
proof (induction ps)
  case Nil
  then show ?case by simp
next
  case (Cons p ps)
  obtain a w where p: "p = (a, w)" by (cases p)
  show ?case
  proof (cases "a = name")
    case True
    then show ?thesis by (auto simp: p fun_eq_iff filter_other_keys)
  next
    case False
    with Cons.prems have "map_of ps name \<noteq> None" by (simp add: p)
    from Cons.IH[OF this] False show ?thesis by (auto simp: p fun_eq_iff)
  qed
qed

lemma map_of_URLSearchParams_set:
  "map_of (URLSearchParams_set name v ps) = (map_of ps)(name \<mapsto> v)"
proof (cases "map_of ps name")
  case None
  then show ?thesis
    by (auto simp: URLSearchParams_set_def key_in_iff fun_eq_iff map_add_def split: option.splits)
next
  case (Some w)
  then show ?thesis by (simp add: URLSearchParams_set_def key_in_iff map_of_set_existing)
qed

lemma count_set_existing:
  "map_of ps name \<noteq> None \<Longrightarrow>
   count_list (map fst (set_existing name v ps)) k =
     (if k = name then 1 else count_list (map fst ps) k)"
proof (induction ps)
  case Nil
  then show ?case by simp
next
  case (Cons p ps)
  obtain a w where p: "p = (a, w)" by (cases p)
  show ?case
  proof (cases "a = name")
    case True
    then show ?thesis by (simp add: p count_filter_this_key count_filter_other_keys)
  next
    case False
    with Cons.prems have "map_of ps name \<noteq> None" by (simp add: p)
    from Cons.IH[OF this] False show ?thesis by (auto simp: p)
  qed
qed

lemma count_URLSearchParams_set:
  "count_list (map fst (URLSearchParams_set name v ps)) k =
     (if k = name then 1 else count_list (map fst ps) k)"
proof (cases "map_of ps name")
  case None
  then have "name \<notin> fst ` set ps" by (simp add: key_in_iff)
  then show ?thesis by (simp add: URLSearchParams_set_def)
next
  case (Some w)
  then show ?thesis by (simp add: URLSearchParams_set_def key_in_iff count_set_existing)
qed

lemma fold_set_param: "fold (set_param P) es ps = set_all (set_calls P es) ps"
  by (induction es arbitrary: ps) (auto simp: set_param_def set_calls_def set_all_def)

lemma map_of_set_all: "map_of (set_all calls ps) = map_of ps ++ map_of (rev calls)"
  unfolding set_all_def
  by (induction calls arbitrary: ps)
     (auto simp: map_of_URLSearchParams_set fun_eq_iff map_add_def split: option.splits)

lemma keys_set_all: "fst ` set (set_all calls ps) = fst ` set ps \<union> fst ` set calls"
proof -
  have "dom (map_of (set_all calls ps)) = dom (map_of ps) \<union> dom (map_of (rev calls))"
    by (simp add: map_of_set_all Un_commute)
  then show ?thesis by (auto simp: dom_map_of_conv_image_fst)
qed

lemma count_set_all:
  "count_list (map fst (set_all calls ps)) k =
     (if k \<in> fst ` set calls then 1 else count_list (map fst ps) k)"
  unfolding set_all_def
proof (induction calls arbitrary: ps)
  case Nil
  then show ?case by simp
next
  case (Cons c calls)
  obtain a s where c: "c = (a, s)" by (cases c)
  show ?case by (auto simp: c Cons.IH count_URLSearchParams_set)
qed

text \<open>On a list where a name occurs once, setting it only replaces its value.\<close>

lemma set_existing_once:
  "count_list (map fst ps) name = 1 \<Longrightarrow> set_existing name v ps = map (put_value name v) ps"
proof (induction ps)
  case Nil
  then show ?case by simp
next
  case (Cons p ps)
  obtain a w where p: "p = (a, w)" by (cases p)
  show ?case
  proof (cases "a = name")
    case True
    with Cons.prems have "count_list (map fst ps) name = 0" by (simp add: p)
    then have absent: "name \<notin> fst ` set ps" by (simp add: count_list_0_iff)
    then have "filter (\<lambda>q. fst q \<noteq> name) ps = ps" by (auto simp: filter_id_conv)
    moreover from absent have "map (put_value name v) ps = ps"
      by (intro map_idI) (auto simp: put_value_def image_iff)
    moreover have "put_value name v (name, w) = (name, v)" by (simp add: put_value_def)
    ultimately show ?thesis using True by (simp add: p)
  next
    case False
    with Cons.prems Cons.IH show ?thesis by (simp add: p put_value_def)
  qed
qed

lemma URLSearchParams_set_once:
  assumes "count_list (map fst ps) name = 1"
  shows "URLSearchParams_set name v ps = map (put_value name v) ps"
proof -
  from assms have "name \<in> fst ` set ps"
    using count_list_0_iff [of "map fst ps" name] by auto
  then show ?thesis using assms by (simp add: URLSearchParams_set_def set_existing_once)
qed

lemma set_all_once:
  "\<forall>k \<in> fst ` set calls. count_list (map fst ps) k = 1 \<Longrightarrow>
   set_all calls ps = map (final_value calls) ps"
proof (induction calls arbitrary: ps)
  case Nil
  then show ?case by (simp add: set_all_def final_value_def)
next
  case (Cons c calls)
  obtain a s where c: "c = (a, s)" by (cases c)
  from Cons.prems have once: "count_list (map fst ps) a = 1" by (simp add: c)
  have keys: "map fst (map (put_value a s) ps) = map fst ps"
    by (simp add: put_value_def comp_def)
  have "\<forall>k \<in> fst ` set calls. count_list (map fst (map (put_value a s) ps)) k = 1"
    using Cons.prems by (simp only: keys) simp
  from Cons.IH[OF this]
  have "set_all (c # calls) ps = map (final_value calls) (map (put_value a s) ps)"
    by (simp add: set_all_def c URLSearchParams_set_once[OF once])
  also have "\<dots> = map (final_value (c # calls)) ps"
    by (auto simp: final_value_def put_value_def c map_add_def split: option.splits)
  finally show ?case .
qed

lemma map_of_once:
  "count_list (map fst ps) k = 1 \<Longrightarrow> (k, w) \<in> set ps \<Longrightarrow> map_of ps k = Some w"
proof (induction ps)
  case Nil
  then show ?case by simp
next
  case (Cons p ps)
  obtain a x where p: "p = (a, x)" by (cases p)
  show ?case
  proof (cases "a = k")
    case True
    with Cons.prems have "count_list (map fst ps) k = 0" by (simp add: p)
    then have "k \<notin> fst ` set ps" by (simp add: count_list_0_iff)
    with Cons.prems True show ?thesis by (auto simp: p image_iff)
  next
    case False
    with Cons.prems Cons.IH show ?thesis by (auto simp: p)
  qed
qed

text \<open>Making the same calls again changes nothing.\<close>

lemma set_all_idem: "set_all calls (set_all calls ps) = set_all calls ps"
proof -
  let ?qs = "set_all calls ps"
  have once: "\<forall>k \<in> fst ` set calls. count_list (map fst ?qs) k = 1"
    by (simp add: count_set_all)
  have "map (final_value calls) ?qs = ?qs"
  proof (rule map_idI)
    fix p assume p: "p \<in> set ?qs"
    show "final_value calls p = p"
    proof (cases "map_of (rev calls) (fst p)")
      case None
      then show ?thesis by (simp add: final_value_def)
    next
      case (Some s)
      then have "(fst p, s) \<in> set (rev calls)" by (rule map_of_SomeD)
      then have "(fst p, s) \<in> set calls" by simp
      then have "fst (fst p, s) \<in> fst ` set calls" by (rule imageI)
      then have "fst p \<in> fst ` set calls" by simp
      with once have "count_list (map fst ?qs) (fst p) = 1" by blast
      moreover from p have "(fst p, snd p) \<in> set ?qs" by simp
      ultimately have "map_of ?qs (fst p) = Some (snd p)" by (rule map_of_once)
      moreover have "map_of ?qs (fst p) = Some s" by (simp add: map_of_set_all Some)
      ultimately show ?thesis by (simp add: final_value_def Some prod_eq_iff)
    qed
  qed
  with set_all_once[OF once] show ?thesis by simp
qed

lemma searchParams_apply_params:
  "searchParams (apply_params P params u) =
     (if ToBoolean P params then set_all (set_calls P (own_entries params)) (searchParams u)
      else searchParams u)"
  by (simp add: apply_params_def fold_set_param)

lemma apply_params_idem: "apply_params P params (apply_params P params u) = apply_params P params u"
  by (simp add: apply_params_def fold_set_param set_all_idem)

lemma keys_set_calls:
  "fst ` set (set_calls P es) = {k. \<exists>v. (k, v) \<in> set es \<and> v \<noteq> JUndefined}"
  by (force simp: set_calls_def image_iff)

lemma keys_apply_params:
  "fst ` set (searchParams (apply_params P params u)) =
     fst ` set (searchParams u) \<union>
     {k. ToBoolean P params \<and> (\<exists>v. (k, v) \<in> set (own_entries params) \<and> v \<noteq> JUndefined)}"
  by (simp add: searchParams_apply_params keys_set_all keys_set_calls)

section \<open>Composing the URL\<close>

lemma map_fst_set_calls:
  "map fst (set_calls P es) = map fst (filter (\<lambda>(k, v). v \<noteq> JUndefined) es)"
  by (simp add: set_calls_def comp_def case_prod_unfold)

lemma map_of_set_calls:
  assumes "distinct (map fst es)" and "(k, v) \<in> set es" and "v \<noteq> JUndefined"
  shows "map_of (rev (set_calls P es)) k = Some (ToString P v)"
proof -
  have d: "distinct (map fst (set_calls P es))"
    using assms(1) by (simp add: map_fst_set_calls distinct_map_filter)
  have "(k, ToString P v) \<in> set (set_calls P es)"
    using assms(2,3) by (force simp: set_calls_def image_iff)
  with d have "map_of (set_calls P es) k = Some (ToString P v)" by simp
  with d show ?thesis by (simp add: map_of_rev_distinct)
qed

text \<open>
  Claim C5. An entry of the parameter mapping whose value is \<^verbatim>\<open>undefined\<close> is not
  set: when the key is not a query parameter of the base URL and has no other entry
  with a defined value, the query of the composed URL has no parameter of that name.
\<close>

theorem absent_params_omitted:
  assumes "URL_parse P path = Some fullUrl"
      and "(key, JUndefined) \<in> set (own_entries params)"
      and "\<forall>v. (key, v) \<in> set (own_entries params) \<longrightarrow> v = JUndefined"
      and "key \<notin> fst ` set (searchParams fullUrl)"
  shows "buildUrl P path params = Inr (URL_toString P (apply_params P params fullUrl)) \<and>
         key \<notin> fst ` set (searchParams (apply_params P params fullUrl))"
proof -
  have "buildUrl P path params = Inr (URL_toString P (apply_params P params fullUrl))"
    using assms(1) by (simp add: buildUrl_def)
  moreover have "key \<notin> fst ` set (searchParams (apply_params P params fullUrl))"
    using assms(3,4) by (auto simp: keys_apply_params)
  ultimately show ?thesis by simp
qed

theorem absent_params_omitted_witness:
  "buildUrl example_platform ''https://api.example.com/users''
     (JObject [(''role'', JString ''admin''), (''page'', JUndefined), (''active'', JBool True)])
     = Inr ''https://api.example.com/users?role=admin&active=true'' \<and>
   ''page'' \<notin> fst ` set (searchParams
      (apply_params example_platform
         (JObject [(''role'', JString ''admin''), (''page'', JUndefined),
                   (''active'', JBool True)])
         \<lparr>before_query = ''https://api.example.com/users'', searchParams = [],
          fragment = None\<rparr>))"
proof -
  let ?params = "JObject [(''role'', JString ''admin''), (''page'', JUndefined),
                          (''active'', JBool True)] :: nat js_value"
  let ?u = "\<lparr>before_query = ''https://api.example.com/users'', searchParams = [],
             fragment = None\<rparr>"
  have h1: "URL_parse example_platform ''https://api.example.com/users'' = Some ?u"
    by (simp add: example_platform_def example_parse_def)
  have h2: "(''page'', JUndefined) \<in> set (own_entries ?params)" by simp
  have h3: "\<forall>v. (''page'', v) \<in> set (own_entries ?params) \<longrightarrow> v = JUndefined" by simp
  have h4: "''page'' \<notin> fst ` set (searchParams ?u)" by simp
  have composed: "URL_toString example_platform (apply_params example_platform ?params ?u)
                    = ''https://api.example.com/users?role=admin&active=true''"
    by (simp add: example_platform_def apply_params_def ToBoolean_def set_param_def
          ToString_def URLSearchParams_set_def example_href_def)
  note omitted = absent_params_omitted [OF h1 h2 h3 h4, unfolded composed]
  show ?thesis by (rule omitted)
qed

text \<open>
  Claim C6. Composing is stable: when the base is a valid absolute URL and the composed
  URL parses back to the URL object it was serialised from, composing the result again
  with the same parameters gives the same URL, with the same query pairs, because
  \<^verbatim>\<open>searchParams.set\<close> overwrites. For an object with distinct keys, a key with a
  defined value occurs once in the composed query, with the string form of the value:
  \<^verbatim>\<open>true\<close> or \<^verbatim>\<open>false\<close> for a boolean, the platform's string form for a number,
  the string itself for a string.
\<close>

theorem buildUrl_idempotent:
  assumes "URL_parse P path = Some fullUrl"
      and "URL_parse P (URL_toString P (apply_params P params fullUrl))
             = Some (apply_params P params fullUrl)"
  shows "buildUrl P path params = Inr (URL_toString P (apply_params P params fullUrl)) \<and>
         buildUrl P (URL_toString P (apply_params P params fullUrl)) params
           = Inr (URL_toString P (apply_params P params fullUrl)) \<and>
         apply_params P params (apply_params P params fullUrl)
           = apply_params P params fullUrl \<and>
         (\<forall>k v. ToBoolean P params \<and> distinct (map fst (own_entries params)) \<and>
                (k, v) \<in> set (own_entries params) \<and> v \<noteq> JUndefined \<longrightarrow>
                count_list (map fst (searchParams (apply_params P params fullUrl))) k = 1 \<and>
                map_of (searchParams (apply_params P params fullUrl)) k
                  = Some (ToString P v)) \<and>
         ToString P (JBool True) = ''true'' \<and> ToString P (JBool False) = ''false'' \<and>
         ToString P (JNumber n) = Number_toString P n \<and> ToString P (JString s) = s"
proof -
  let ?u = "apply_params P params fullUrl"
  have composed1: "buildUrl P path params = Inr (URL_toString P ?u)"
    using assms(1) by (simp add: buildUrl_def)
  have composed2: "buildUrl P (URL_toString P ?u) params = Inr (URL_toString P ?u)"
    using assms(2) by (simp add: buildUrl_def apply_params_idem)
  have vals: "\<forall>k v. ToBoolean P params \<and> distinct (map fst (own_entries params)) \<and>
                (k, v) \<in> set (own_entries params) \<and> v \<noteq> JUndefined \<longrightarrow>
                count_list (map fst (searchParams ?u)) k = 1 \<and>
                map_of (searchParams ?u) k = Some (ToString P v)"
  proof (intro allI impI)
    fix k v
    assume a: "ToBoolean P params \<and> distinct (map fst (own_entries params)) \<and>
                (k, v) \<in> set (own_entries params) \<and> v \<noteq> JUndefined"
    then have "k \<in> fst ` set (set_calls P (own_entries params))"
      by (auto simp: keys_set_calls)
    then have once: "count_list (map fst (searchParams ?u)) k = 1"
      using a by (simp add: searchParams_apply_params count_set_all)
    have "map_of (rev (set_calls P (own_entries params))) k = Some (ToString P v)"
      using a by (simp add: map_of_set_calls)
    then have "map_of (searchParams ?u) k = Some (ToString P v)"
      using a by (simp add: searchParams_apply_params map_of_set_all)
    with once show "count_list (map fst (searchParams ?u)) k = 1 \<and>
                map_of (searchParams ?u) k = Some (ToString P v)" by simp
  qed
  have strings: "ToString P (JBool True) = ''true'' \<and> ToString P (JBool False) = ''false'' \<and>
         ToString P (JNumber n) = Number_toString P n \<and> ToString P (JString s) = s"
    by (simp add: ToString_def)
  note idem = apply_params_idem [of P params fullUrl]
  show ?thesis
    by (rule conjI [OF composed1 conjI [OF composed2 conjI [OF idem conjI [OF vals strings]]]])
qed

theorem buildUrl_idempotent_witness:
  "buildUrl example_platform ''https://api.example.com/users''
     (JObject [(''role'', JString ''admin''), (''page'', JUndefined), (''active'', JBool True)])
     = Inr ''https://api.example.com/users?role=admin&active=true'' \<and>
   buildUrl example_platform ''https://api.example.com/users?role=admin&active=true''
     (JObject [(''role'', JString ''admin''), (''page'', JUndefined), (''active'', JBool True)])
     = Inr ''https://api.example.com/users?role=admin&active=true'' \<and>
   searchParams (apply_params example_platform
     (JObject [(''role'', JString ''admin''), (''page'', JUndefined), (''active'', JBool True)])
     \<lparr>before_query = ''https://api.example.com/users'', searchParams = [], fragment = None\<rparr>)
     = [(''role'', ''admin''), (''active'', ''true'')]"
proof -
  let ?params = "JObject [(''role'', JString ''admin''), (''page'', JUndefined),
                          (''active'', JBool True)] :: nat js_value"
  let ?u = "\<lparr>before_query = ''https://api.example.com/users'', searchParams = [],
             fragment = None\<rparr>"
  have applied: "apply_params example_platform ?params ?u =
      \<lparr>before_query = ''https://api.example.com/users'',
       searchParams = [(''role'', ''admin''), (''active'', ''true'')], fragment = None\<rparr>"
    by (simp add: example_platform_def apply_params_def ToBoolean_def set_param_def
          ToString_def URLSearchParams_set_def)
  have composed: "URL_toString example_platform (apply_params example_platform ?params ?u)
                    = ''https://api.example.com/users?role=admin&active=true''"
    by (simp only: applied) (simp add: example_platform_def example_href_def)
  have h1: "URL_parse example_platform ''https://api.example.com/users'' = Some ?u"
    by (simp add: example_platform_def example_parse_def)
  have h2: "URL_parse example_platform
              (URL_toString example_platform (apply_params example_platform ?params ?u))
            = Some (apply_params example_platform ?params ?u)"
    by (simp only: composed, simp only: applied)
       (simp add: example_platform_def example_parse_def)
  have pairs: "searchParams (apply_params example_platform ?params ?u)
                 = [(''role'', ''admin''), (''active'', ''true'')]"
    by (simp only: applied) simp
  note stable = buildUrl_idempotent [OF h1 h2, unfolded composed]
  show ?thesis
    by (rule conjI [OF stable [THEN conjunct1]
          conjI [OF stable [THEN conjunct2, THEN conjunct1] pairs]])
qed

end
